theory Spec2Isabelle
  imports Main Complex_Main
begin

section \<open>Exceptions\<close>

text \<open>
  The exceptions of the Python code, as values.  \<open>DimensionMismatch\<close> is the failure of the
  FAISS wrapper's check \<^verbatim>\<open>assert d == self.d\<close>, \<open>NonPositiveK\<close> the failure of its check
  \<^verbatim>\<open>assert k > 0\<close>; \<open>ValueError\<close> and \<open>IndexError\<close> are numpy's and Python's own;
  \<open>ExternalServiceError\<close> is any exception raised by the embedding or completion service;
  \<open>JSONDecodeError\<close> is raised by \<^verbatim>\<open>json.loads\<close>.
\<close>

datatype error =
    ValueError
  | IndexError
  | DimensionMismatch
  | NonPositiveK
  | ExternalServiceError
  | JSONDecodeError

section \<open>The vector store (app/rag/vector\_store.py)\<close>

type_synonym vector = "real list"

text \<open>A metadata value: the file name is a string, the chunk numbers are integers.\<close>

datatype mval = MStr string | MInt int

record document =
  content :: string
  metadata :: "(string \<times> mval) list"

text \<open>
  Modelled from the spec: the FAISS index \<^verbatim>\<open>faiss.IndexFlatL2\<close> is a third-party class
  whose code is not part of the repository.  It is modelled as the spec (4.2) and the
  library describe it: a
  fixed dimension \<open>idx_d\<close>, the stored rows \<open>idx_xb\<close> in insertion order, \<open>add\<close> refusing
  rows of another dimension, \<open>search\<close> returning the \<open>k\<close> rows nearest to the query by
  squared Euclidean distance, nearest first, as (row number, distance) pairs, padded with
  row number \<open>-1\<close> when fewer than \<open>k\<close> rows are stored.  Floating-point numbers are
  abstracted to reals; rows at the same distance are returned in insertion order.
\<close>

record faiss_index =
  idx_d :: nat
  idx_xb :: "vector list"

definition IndexFlatL2 :: "nat \<Rightarrow> faiss_index" where
  "IndexFlatL2 dd = \<lparr>idx_d = dd, idx_xb = []\<rparr>"

text \<open>
  \<^verbatim>\<open>np.array(embeddings, dtype=np.float32)\<close>: rows of different lengths are refused.
  The array is kept as its list of rows.
\<close>

definition np_array :: "vector list \<Rightarrow> error + vector list" where
  "np_array rows =
     (case rows of
        [] \<Rightarrow> Inr []
      | r # rs \<Rightarrow> if list_all (\<lambda>r'. length r' = length r) rs then Inr rows else Inl ValueError)"

text \<open>\<^verbatim>\<open>arr.shape[1]\<close>: an array without rows is one-dimensional and has no second axis.\<close>

definition shape1 :: "vector list \<Rightarrow> error + nat" where
  "shape1 arr = (case arr of [] \<Rightarrow> Inl IndexError | r # rs \<Rightarrow> Inr (length r))"

text \<open>
  Modelled from the spec: \<^verbatim>\<open>index.add(x)\<close> of the FAISS index, which fails with
  \<open>DimensionMismatch\<close> if the rows' length differs from the index's dimension (the
  wrapper's \<^verbatim>\<open>n, d = x.shape; assert d == self.d\<close>) and otherwise appends the rows.
\<close>

definition faiss_add :: "faiss_index \<Rightarrow> vector list \<Rightarrow> error + faiss_index" where
  "faiss_add ix arr =
     (case shape1 arr of
        Inl e \<Rightarrow> Inl ValueError
      | Inr dd \<Rightarrow>
          if dd \<noteq> idx_d ix then Inl DimensionMismatch
          else Inr (ix\<lparr>idx_xb := idx_xb ix @ arr\<rparr>))"

definition sqdist :: "vector \<Rightarrow> vector \<Rightarrow> real" where
  "sqdist q v = sum_list (map (\<lambda>(a, b). (a - b) * (a - b)) (zip q v))"

text \<open>The distance FAISS reports for a padding entry (the largest 32-bit float).\<close>

definition FLT_MAX :: real where
  "FLT_MAX = 340282346638528859811704183484516925440"

text \<open>
  Modelled from the spec: \<^verbatim>\<open>index.search(x, k)\<close> of the FAISS index for one query row
  (the wrapper's \<^verbatim>\<open>assert d == self.d; assert k > 0\<close>, then the \<open>k\<close> nearest rows,
  ascending by squared Euclidean distance).
\<close>

definition faiss_search :: "faiss_index \<Rightarrow> vector \<Rightarrow> int \<Rightarrow> error + (int \<times> real) list" where
  "faiss_search ix q k =
     (if length q \<noteq> idx_d ix then Inl DimensionMismatch
      else if k \<le> 0 then Inl NonPositiveK
      else
        let ranked = take (nat k)
              (sort_key snd (zip (map int [0 ..< length (idx_xb ix)]) (map (sqdist q) (idx_xb ix))))
        in Inr (ranked @ replicate (nat k - length ranked) (- 1, FLT_MAX)))"

text \<open>
  The embedding service (\<^verbatim>\<open>embeddings_generator\<close>) is external: its two entry points are
  parameters of the model, each either raising or returning vectors.
\<close>

record embedder =
  generate_embedding :: "string \<Rightarrow> error + vector"
  generate_embeddings_batch :: "string list \<Rightarrow> error + vector list"

record vector_store =
  index :: "faiss_index option"
  documents :: "document list"
  dimension :: "nat option"
  is_initialized :: bool

text \<open>\<^verbatim>\<open>VectorStore.__init__\<close>.\<close>

definition init_store :: vector_store where
  "init_store = \<lparr>index = None, documents = [], dimension = None, is_initialized = False\<rparr>"

text \<open>
  \<^verbatim>\<open>VectorStore.add_documents\<close>.  The result is the exception raised, if any, and the
  store as the call leaves it (a Python exception keeps the assignments made before it).
\<close>

definition add_documents ::
  "embedder \<Rightarrow> document list \<Rightarrow> vector_store \<Rightarrow> error option \<times> vector_store" where
  "add_documents E docs st =
     (if docs = [] then (None, st)
      else
        case generate_embeddings_batch E (map content docs) of
          Inl e \<Rightarrow> (Some e, st)
        | Inr embeddings \<Rightarrow>
            (case np_array embeddings of
               Inl e \<Rightarrow> (Some e, st)
             | Inr embeddings_array \<Rightarrow>
                 (case (case index st of
                          None \<Rightarrow>
                            (case shape1 embeddings_array of
                               Inl e \<Rightarrow> Inl e
                             | Inr dd \<Rightarrow>
                                 Inr (IndexFlatL2 dd, st\<lparr>dimension := Some dd,
                                                         index := Some (IndexFlatL2 dd)\<rparr>))
                        | Some ix \<Rightarrow> Inr (ix, st)) of
                    Inl e \<Rightarrow> (Some e, st)
                  | Inr (ix, st1) \<Rightarrow>
                      (case faiss_add ix embeddings_array of
                         Inl e \<Rightarrow> (Some e, st1)
                       | Inr ix' \<Rightarrow>
                           (None, st1\<lparr>index := Some ix',
                                     documents := documents st1 @ docs,
                                     is_initialized := True\<rparr>)))))"

text \<open>\<^verbatim>\<open>k or settings.top_k_results\<close>: \<open>None\<close> and \<open>0\<close> are both falsy.\<close>

definition k_or_default :: "int option \<Rightarrow> int \<Rightarrow> int" where
  "k_or_default k top_k_results =
     (case k of None \<Rightarrow> top_k_results | Some n \<Rightarrow> if n = 0 then top_k_results else n)"

text \<open>\<^verbatim>\<open>self.documents[idx]\<close>: a negative index counts from the end.\<close>

definition py_index :: "'a list \<Rightarrow> int \<Rightarrow> error + 'a" where
  "py_index xs i =
     (if 0 \<le> i \<and> i < int (length xs) then Inr (xs ! nat i)
      else if i < 0 \<and> - int (length xs) \<le> i then Inr (xs ! nat (int (length xs) + i))
      else Inl IndexError)"

text \<open>The loop of \<^verbatim>\<open>search\<close> over \<^verbatim>\<open>zip(indices[0], distances[0])\<close>.\<close>

fun collect_results ::
  "document list \<Rightarrow> (int \<times> real) list \<Rightarrow> (document \<times> real) list \<Rightarrow> error + (document \<times> real) list"
where
  "collect_results ds [] results = Inr results"
| "collect_results ds ((idx, distance) # rest) results =
     (if idx < int (length ds) then
        (case py_index ds idx of
           Inl e \<Rightarrow> Inl e
         | Inr doc \<Rightarrow> collect_results ds rest (results @ [(doc, distance)]))
      else collect_results ds rest results)"

text \<open>
  \<^verbatim>\<open>VectorStore.search\<close>; \<open>top_k_results\<close> is \<^verbatim>\<open>settings.top_k_results\<close>.  The store is
  only read.
\<close>

definition search ::
  "embedder \<Rightarrow> int \<Rightarrow> vector_store \<Rightarrow> string \<Rightarrow> int option \<Rightarrow> error + (document \<times> real) list"
where
  "search E top_k_results st query k =
     (case index st of
        None \<Rightarrow> Inr []
      | Some ix \<Rightarrow>
          if \<not> is_initialized st then Inr []
          else
            let k1 = k_or_default k top_k_results;
                k2 = min k1 (int (length (documents st)))
            in case generate_embedding E query of
                 Inl e \<Rightarrow> Inl e
               | Inr query_embedding \<Rightarrow>
                   (case faiss_search ix query_embedding k2 of
                      Inl e \<Rightarrow> Inl e
                    | Inr found \<Rightarrow> collect_results (documents st) found []))"

text \<open>\<^verbatim>\<open>VectorStore.clear\<close>: three of the four attributes are reset.\<close>

definition clear :: "vector_store \<Rightarrow> vector_store" where
  "clear st = st\<lparr>index := None, documents := [], is_initialized := False\<rparr>"

text \<open>
  The states the store can be in: without an index it is empty and not initialized; with
  an index it is initialized, not empty, and holds one row of the index's dimension per
  document.
\<close>

definition store_ok :: "vector_store \<Rightarrow> bool" where
  "store_ok st =
     (case index st of
        None \<Rightarrow> \<not> is_initialized st \<and> documents st = []
      | Some ix \<Rightarrow>
          is_initialized st \<and> documents st \<noteq> [] \<and>
          length (idx_xb ix) = length (documents st) \<and>
          list_all (\<lambda>v. length v = idx_d ix) (idx_xb ix))"

text \<open>The embedder's contract (spec 6): one vector per text.\<close>

definition embedder_ok :: "embedder \<Rightarrow> bool" where
  "embedder_ok E =
     (\<forall>ts vs. generate_embeddings_batch E ts = Inr vs \<longrightarrow> length vs = length ts)"

text \<open>A sequence of \<^verbatim>\<open>add_documents\<close> calls, the caller going on after a failed one.\<close>

fun add_all :: "embedder \<Rightarrow> document list list \<Rightarrow> vector_store \<Rightarrow> vector_store" where
  "add_all E [] st = st"
| "add_all E (b # bs) st = add_all E bs (snd (add_documents E b st))"

text \<open>All rows of an index with their distances to a query, nearest first.\<close>

definition ranked_rows :: "faiss_index \<Rightarrow> vector \<Rightarrow> (int \<times> real) list" where
  "ranked_rows ix q =
     sort_key snd (zip (map int [0 ..< length (idx_xb ix)]) (map (sqdist q) (idx_xb ix)))"

section \<open>Python slices\<close>

text \<open>
  How Python turns a slice bound into a position of a sequence of length \<open>n\<close>: a negative
  bound counts from the end, and a bound outside the sequence is clipped.
\<close>

definition py_clamp :: "int \<Rightarrow> int \<Rightarrow> nat" where
  "py_clamp n i = nat (if i < 0 then max (i + n) 0 else min i n)"

text \<open>\<^verbatim>\<open>xs[start:]\<close> and \<^verbatim>\<open>xs[start:stop]\<close>.\<close>

definition py_slice_from :: "'a list \<Rightarrow> int \<Rightarrow> 'a list" where
  "py_slice_from xs start = drop (py_clamp (int (length xs)) start) xs"

definition py_slice :: "'a list \<Rightarrow> int \<Rightarrow> int \<Rightarrow> 'a list" where
  "py_slice xs start stop =
     (let n = int (length xs); s = py_clamp n start; e = py_clamp n stop
      in take (e - s) (drop s xs))"

section \<open>The environment: settings, clock, identifiers, external services\<close>

text \<open>
  The assistant message a completion call returns: its text and the tool calls it
  requests (absent or a list).  \<^verbatim>\<open>tool_call.function.arguments\<close> is a JSON text that the
  agent parses with \<^verbatim>\<open>json.loads\<close>; the model carries the outcome of that parse: text
  that is not JSON, or an object with an optional \<open>query\<close> string and a \<open>num_results\<close>
  that is absent, null or an integer.
\<close>

datatype num_arg = NumAbsent | NumNull | NumInt int

datatype parsed_args = Malformed | Args "string option" num_arg

record tool_call =
  tc_id :: string
  fn_name :: string
  fn_arguments :: parsed_args

record reply =
  reply_content :: string
  tool_calls :: "tool_call list option"

text \<open>
  The entries of the agent's working list \<^verbatim>\<open>messages\<close>: the dictionaries of
  \<^verbatim>\<open>Message.to_dict\<close>, the assistant's reply object, and the tool-result dictionaries
  (\<^verbatim>\<open>tool_call_id\<close>, \<^verbatim>\<open>name\<close>, \<^verbatim>\<open>content\<close>, with role tool).
\<close>

datatype wmsg =
    Dict string string
  | AssistantReply reply
  | ToolResult string string string

text \<open>
  What the process reads from outside: the settings, the system clock (\<open>clock n\<close> is the
  value of the \<open>n\<close>-th call of \<^verbatim>\<open>time.time()\<close>), the identifier generator (\<open>uuid4 n\<close> is
  the text of the \<open>n\<close>-th \<^verbatim>\<open>uuid.uuid4()\<close>), the embedding service and the completion
  service (\<^verbatim>\<open>client.chat.completions.create\<close>, called with the messages and with or
  without the tool schema; it raises or returns the assistant message).
\<close>

record config =
  max_history :: int
  ttl :: int
  top_k_results :: int
  clock :: "nat \<Rightarrow> real"
  uuid4 :: "nat \<Rightarrow> string"
  embeddings_generator :: embedder
  completions_create :: "wmsg list \<Rightarrow> bool \<Rightarrow> error + reply"

text \<open>
  What the agent does to the outside during a query, in order: a completion call (its
  messages, and whether the tool schema was offered) or a search of the index.
\<close>

datatype event =
    Completion "wmsg list" bool
  | Search string "int option"

section \<open>Session memory (app/agent/memory.py)\<close>

record message =
  msg_role :: string
  msg_content :: string
  msg_timestamp :: real

text \<open>
  The process state: the two dictionaries of \<^verbatim>\<open>SessionMemory\<close>, the number of clock
  readings and of identifiers taken so far, the vector store, and the record of external
  calls.
\<close>

record world =
  sessions :: "string \<rightharpoonup> message list"
  session_timestamps :: "string \<rightharpoonup> real"
  ticks :: nat
  uuids :: nat
  vstore :: vector_store
  trace :: "event list"

text \<open>\<^verbatim>\<open>time.time()\<close>.\<close>

definition time_time :: "config \<Rightarrow> world \<Rightarrow> real \<times> world" where
  "time_time cfg w = (clock cfg (ticks w), w\<lparr>ticks := Suc (ticks w)\<rparr>)"

text \<open>\<^verbatim>\<open>Message.to_dict\<close>.\<close>

definition to_dict :: "message \<Rightarrow> wmsg" where
  "to_dict m = Dict (msg_role m) (msg_content m)"

text \<open>\<^verbatim>\<open>SessionMemory._cleanup_session\<close>.\<close>

definition cleanup_session :: "string \<Rightarrow> world \<Rightarrow> world" where
  "cleanup_session session_id w =
     w\<lparr>sessions := (sessions w)(session_id := None),
       session_timestamps := (session_timestamps w)(session_id := None)\<rparr>"

text \<open>
  \<^verbatim>\<open>SessionMemory._is_session_valid\<close>: the clock is read only for a session that is
  present; an expired session is removed.  \<open>last_access\<close> is
  \<^verbatim>\<open>self.session_timestamps.get(session_id, 0)\<close>.
\<close>

definition last_access :: "world \<Rightarrow> string \<Rightarrow> real" where
  "last_access w session_id = (case session_timestamps w session_id of None \<Rightarrow> 0 | Some t \<Rightarrow> t)"

definition is_session_valid :: "config \<Rightarrow> string \<Rightarrow> world \<Rightarrow> bool \<times> world" where
  "is_session_valid cfg session_id w =
     (case sessions w session_id of
        None \<Rightarrow> (False, w)
      | Some h \<Rightarrow>
          let (now, w1) = time_time cfg w
          in if now - last_access w session_id > real_of_int (ttl cfg)
             then (False, cleanup_session session_id w1)
             else (True, w1))"

text \<open>\<^verbatim>\<open>SessionMemory.session_exists\<close>.\<close>

definition session_exists :: "config \<Rightarrow> string \<Rightarrow> world \<Rightarrow> bool \<times> world" where
  "session_exists cfg session_id w = is_session_valid cfg session_id w"

text \<open>\<^verbatim>\<open>SessionMemory.create_session\<close>.\<close>

definition create_session :: "config \<Rightarrow> world \<Rightarrow> string \<times> world" where
  "create_session cfg w =
     (let session_id = uuid4 cfg (uuids w);
          w1 = w\<lparr>uuids := Suc (uuids w)\<rparr>;
          w2 = w1\<lparr>sessions := (sessions w1)(session_id \<mapsto> [])\<rparr>;
          (now, w3) = time_time cfg w2
      in (session_id, w3\<lparr>session_timestamps := (session_timestamps w3)(session_id \<mapsto> now)\<rparr>))"

text \<open>
  \<^verbatim>\<open>self.sessions[session_id]\<close>: the dictionary is a \<^verbatim>\<open>defaultdict(list)\<close>, a missing key
  reads as the empty list.
\<close>

definition session_list :: "world \<Rightarrow> string \<Rightarrow> message list" where
  "session_list w session_id = (case sessions w session_id of None \<Rightarrow> [] | Some h \<Rightarrow> h)"

text \<open>
  The trimming block at the end of \<^verbatim>\<open>add_message\<close>, applied to the session's list:
  \<^verbatim>\<open>if len(msgs) > max_history * 2: msgs = system_messages + recent_messages\<close>.
\<close>

definition trim_history :: "int \<Rightarrow> message list \<Rightarrow> message list" where
  "trim_history mh msgs =
     (if int (length msgs) > mh * 2 then
        let system_messages = filter (\<lambda>m. msg_role m = ''system'') msgs;
            recent_messages = py_slice_from (filter (\<lambda>m. msg_role m \<noteq> ''system'') msgs) (- (mh * 2))
        in system_messages @ recent_messages
      else msgs)"

text \<open>
  \<^verbatim>\<open>SessionMemory.add_message\<close>: validity check, append (the message stamps itself with a
  clock reading), refresh of the session's timestamp (another reading), then the trim.
\<close>

definition add_message :: "config \<Rightarrow> string \<Rightarrow> string \<Rightarrow> string \<Rightarrow> world \<Rightarrow> world" where
  "add_message cfg session_id role txt w =
     (let (valid, w1) = is_session_valid cfg session_id w
      in if \<not> valid then w1
         else
           let (stamp, w2) = time_time cfg w1;
               message = \<lparr>msg_role = role, msg_content = txt, msg_timestamp = stamp\<rparr>;
               w3 = w2\<lparr>sessions := (sessions w2)(session_id \<mapsto> session_list w2 session_id @ [message])\<rparr>;
               (now, w4) = time_time cfg w3;
               w5 = w4\<lparr>session_timestamps := (session_timestamps w4)(session_id \<mapsto> now)\<rparr>
           in w5\<lparr>sessions := (sessions w5)(session_id \<mapsto>
                   trim_history (max_history cfg) (session_list w5 session_id))\<rparr>)"

text \<open>\<^verbatim>\<open>SessionMemory.get_history\<close>: a new list of dictionaries, not the stored list.\<close>

definition get_history :: "config \<Rightarrow> string \<Rightarrow> world \<Rightarrow> wmsg list \<times> world" where
  "get_history cfg session_id w =
     (let (valid, w1) = is_session_valid cfg session_id w
      in if \<not> valid then ([], w1)
         else (map to_dict (session_list w1 session_id), w1))"

text \<open>
  A run of \<^verbatim>\<open>add_message\<close> calls on one session, one (role, content) pair after the
  other.
\<close>

fun add_messages :: "config \<Rightarrow> string \<Rightarrow> (string \<times> string) list \<Rightarrow> world \<Rightarrow> world" where
  "add_messages cfg session_id [] w = w"
| "add_messages cfg session_id ((role, txt) # rest) w =
     add_messages cfg session_id rest (add_message cfg session_id role txt w)"

text \<open>
  The messages such a run stores when it starts at clock reading \<open>t\<close> and every call
  finds the session valid: each call takes three readings, the second is the stamp.
\<close>

fun stamped :: "config \<Rightarrow> nat \<Rightarrow> (string \<times> string) list \<Rightarrow> message list" where
  "stamped cfg t [] = []"
| "stamped cfg t ((role, txt) # rest) =
     \<lparr>msg_role = role, msg_content = txt, msg_timestamp = clock cfg (t + 1)\<rparr> # stamped cfg (t + 3) rest"

text \<open>The history after appending messages one by one, each append followed by the trim.\<close>

fun append_trim :: "int \<Rightarrow> message list \<Rightarrow> message list \<Rightarrow> message list" where
  "append_trim mh h [] = h"
| "append_trim mh h (m # ms) = append_trim mh (trim_history mh (h @ [m])) ms"

text \<open>The system messages, the other messages, and the most recent \<open>n\<close> of a list.\<close>

definition system_of :: "message list \<Rightarrow> message list" where
  "system_of msgs = filter (\<lambda>m. msg_role m = ''system'') msgs"

definition others_of :: "message list \<Rightarrow> message list" where
  "others_of msgs = filter (\<lambda>m. msg_role m \<noteq> ''system'') msgs"

definition most_recent :: "nat \<Rightarrow> 'a list \<Rightarrow> 'a list" where
  "most_recent n xs = drop (length xs - n) xs"

section \<open>Retrieval (app/rag/retriever.py)\<close>

text \<open>The dictionaries \<^verbatim>\<open>DocumentRetriever.retrieve\<close> returns.\<close>

record retrieved =
  r_content :: string
  r_source :: mval
  r_chunk_id :: mval
  r_distance :: real

text \<open>\<^verbatim>\<open>doc.metadata.get(key, default)\<close>.\<close>

definition metadata_get :: "document \<Rightarrow> string \<Rightarrow> mval \<Rightarrow> mval" where
  "metadata_get doc key dflt = (case map_of (metadata doc) key of None \<Rightarrow> dflt | Some v \<Rightarrow> v)"

definition to_retrieved :: "document \<times> real \<Rightarrow> retrieved" where
  "to_retrieved p =
     \<lparr>r_content = content (fst p),
      r_source = metadata_get (fst p) ''source'' (MStr ''unknown''),
      r_chunk_id = metadata_get (fst p) ''chunk_id'' (MInt 0),
      r_distance = snd p\<rparr>"

text \<open>
  \<^verbatim>\<open>DocumentRetriever.retrieve\<close>: one search of the global vector store, which is recorded
  in the trace.
\<close>

definition retrieve :: "config \<Rightarrow> string \<Rightarrow> int option \<Rightarrow> world \<Rightarrow> (error + retrieved list) \<times> world" where
  "retrieve cfg query k w =
     (let w1 = w\<lparr>trace := trace w @ [Search query k]\<rparr>
      in (case search (embeddings_generator cfg) (top_k_results cfg) (vstore w1) query k of
            Inl e \<Rightarrow> Inl e
          | Inr results \<Rightarrow> Inr (map to_retrieved results),
          w1))"

section \<open>The agent (app/agent/ai\_agent.py)\<close>

text \<open>Python's \<^verbatim>\<open>str\<close> of a natural number, of an integer and of a metadata value.\<close>

fun str_nat :: "nat \<Rightarrow> string" where
  "str_nat n = (if n < 10 then [char_of (48 + n)] else str_nat (n div 10) @ [char_of (48 + n mod 10)])"

definition str_int :: "int \<Rightarrow> string" where
  "str_int i = (if i < 0 then CHR ''-'' # str_nat (nat (- i)) else str_nat (nat i))"

definition py_str :: "mval \<Rightarrow> string" where
  "py_str v = (case v of MStr s \<Rightarrow> s | MInt i \<Rightarrow> str_int i)"

text \<open>\<^verbatim>\<open>sep.join(parts)\<close>.\<close>

fun join :: "string \<Rightarrow> string list \<Rightarrow> string" where
  "join sep [] = []"
| "join sep [p] = p"
| "join sep (p # q # ps) = p @ sep @ join sep (q # ps)"

text \<open>
  \<^verbatim>\<open>list(set(xs))\<close>: the distinct elements.  Python leaves their order open; the model
  lists them by first occurrence, and the properties below only use the set.
\<close>

definition list_set :: "'a list \<Rightarrow> 'a list" where
  "list_set xs = rev (remdups (rev xs))"

text \<open>The first line of \<^verbatim>\<open>AIAgent.SYSTEM_PROMPT\<close> (the text goes on; nothing depends on it).\<close>

definition SYSTEM_PROMPT :: string where
  "SYSTEM_PROMPT = ''You are a helpful AI assistant with access to company knowledge base. ''"

text \<open>
  The f-string of \<^verbatim>\<open>_search_documents\<close> for the \<open>i\<close>-th result:
  \<^verbatim>\<open>[Document i - source]\ncontent\n\<close>.
\<close>

definition format_result :: "nat \<Rightarrow> retrieved \<Rightarrow> string" where
  "format_result i result =
     ''[Document '' @ str_nat i @ '' - '' @ py_str (r_source result) @ '']'' @ [CHR 0x0A] @
     r_content result @ [CHR 0x0A]"

text \<open>\<^verbatim>\<open>AIAgent._search_documents\<close>.\<close>

definition search_documents :: "config \<Rightarrow> string \<Rightarrow> int option \<Rightarrow> world \<Rightarrow> (error + string) \<times> world" where
  "search_documents cfg query num_results w =
     (case retrieve cfg query num_results w of
        (Inl e, w1) \<Rightarrow> (Inl e, w1)
      | (Inr results, w1) \<Rightarrow>
          if results = [] then (Inr ''No relevant documents found.'', w1)
          else (Inr (join [CHR 0x0A]
                  (map (\<lambda>(i, result). format_result i result)
                     (zip [1 ..< Suc (length results)] results))), w1))"

text \<open>\<^verbatim>\<open>function_args.get("query", query)\<close> and \<^verbatim>\<open>function_args.get("num_results", 3)\<close>.\<close>

definition get_query :: "string option \<Rightarrow> string \<Rightarrow> string" where
  "get_query a query = (case a of None \<Rightarrow> query | Some q \<Rightarrow> q)"

definition get_num_results :: "num_arg \<Rightarrow> int option" where
  "get_num_results a = (case a of NumAbsent \<Rightarrow> Some 3 | NumNull \<Rightarrow> None | NumInt n \<Rightarrow> Some n)"

text \<open>
  The loop of \<^verbatim>\<open>process_query\<close> over \<^verbatim>\<open>response_message.tool_calls\<close>.  It carries the
  working list \<^verbatim>\<open>messages\<close> and the variable \<^verbatim>\<open>sources\<close>; an exception ends it.
\<close>

fun run_tool_calls ::
  "config \<Rightarrow> string \<Rightarrow> tool_call list \<Rightarrow> wmsg list \<Rightarrow> mval list \<Rightarrow> world \<Rightarrow>
   (error + wmsg list \<times> mval list) \<times> world"
where
  "run_tool_calls cfg query [] messages sources w = (Inr (messages, sources), w)"
| "run_tool_calls cfg query (tool_call # rest) messages sources w =
     (case fn_arguments tool_call of
        Malformed \<Rightarrow> (Inl JSONDecodeError, w)
      | Args q n \<Rightarrow>
          if fn_name tool_call = ''search_documents'' then
            (case search_documents cfg (get_query q query) (get_num_results n) w of
               (Inl e, w1) \<Rightarrow> (Inl e, w1)
             | (Inr search_results, w1) \<Rightarrow>
                 (case retrieve cfg (get_query q query) (get_num_results n) w1 of
                    (Inl e, w2) \<Rightarrow> (Inl e, w2)
                  | (Inr retrieved_docs, w2) \<Rightarrow>
                      run_tool_calls cfg query rest
                        (messages @ [ToolResult (tc_id tool_call) (fn_name tool_call) search_results])
                        (list_set (map r_source retrieved_docs)) w2))
          else run_tool_calls cfg query rest messages sources w)"

text \<open>\<^verbatim>\<open>client.chat.completions.create\<close>, recorded in the trace.\<close>

definition call_completion :: "config \<Rightarrow> wmsg list \<Rightarrow> bool \<Rightarrow> world \<Rightarrow> (error + reply) \<times> world" where
  "call_completion cfg messages tools w =
     (completions_create cfg messages tools, w\<lparr>trace := trace w @ [Completion messages tools]\<rparr>)"

record query_result =
  answer :: string
  sources :: "mval list"
  result_session_id :: string

text \<open>
  The first step of \<^verbatim>\<open>process_query\<close>: an existing session is reused; otherwise (no id,
  an empty id, an unknown or expired id) a session is created and given the system
  message.
\<close>

definition resolve_session :: "config \<Rightarrow> string option \<Rightarrow> world \<Rightarrow> string \<times> world" where
  "resolve_session cfg session_id w =
     (let (found, w1) =
            (case session_id of
               None \<Rightarrow> (False, w)
             | Some s \<Rightarrow> if s = [] then (False, w) else session_exists cfg s w)
      in if found then (the session_id, w1)
         else
           let (new_id, w2) = create_session cfg w1
           in (new_id, add_message cfg new_id ''system'' SYSTEM_PROMPT w2))"

text \<open>
  The opening of \<^verbatim>\<open>process_query\<close>, up to the first completion call: the session, the
  user message, and the working list \<^verbatim>\<open>messages\<close> read from the history.
\<close>

definition prepare :: "config \<Rightarrow> string \<Rightarrow> string option \<Rightarrow> world \<Rightarrow> string \<times> wmsg list \<times> world" where
  "prepare cfg query session_id w =
     (let (sid, w1) = resolve_session cfg session_id w;
          w2 = add_message cfg sid ''user'' query w1;
          (messages, w3) = get_history cfg sid w2
      in (sid, messages, w3))"

text \<open>
  The tool round of \<^verbatim>\<open>process_query\<close>: what follows a first reply that requests tool
  calls, up to the final answer and the sources.
\<close>

definition tool_round ::
  "config \<Rightarrow> string \<Rightarrow> wmsg list \<Rightarrow> reply \<Rightarrow> tool_call list \<Rightarrow> world \<Rightarrow>
   (error + string \<times> mval list) \<times> world"
where
  "tool_round cfg query messages response_message tcs w =
     (case run_tool_calls cfg query tcs (messages @ [AssistantReply response_message]) [] w of
        (Inl e, w1) \<Rightarrow> (Inl e, w1)
      | (Inr (messages', sources'), w1) \<Rightarrow>
          (case call_completion cfg messages' False w1 of
             (Inl e, w2) \<Rightarrow> (Inl e, w2)
           | (Inr second_response, w2) \<Rightarrow> (Inr (reply_content second_response, sources'), w2)))"

text \<open>
  \<^verbatim>\<open>AIAgent.process_query\<close>.  An exception of the body is logged and raised again: the
  result is then the exception, with the state as it was left.  A reply asks for tools
  when \<^verbatim>\<open>tool_calls\<close> is a non-empty list.
\<close>

definition process_query ::
  "config \<Rightarrow> string \<Rightarrow> string option \<Rightarrow> world \<Rightarrow> (error + query_result) \<times> world"
where
  "process_query cfg query session_id w =
     (case prepare cfg query session_id w of
        (sid, messages, w3) \<Rightarrow>
          (case call_completion cfg messages True w3 of
             (Inl e, w4) \<Rightarrow> (Inl e, w4)
           | (Inr response_message, w4) \<Rightarrow>
               (case (case tool_calls response_message of
                        None \<Rightarrow> (Inr (reply_content response_message, []), w4)
                      | Some [] \<Rightarrow> (Inr (reply_content response_message, []), w4)
                      | Some (tc # tcs) \<Rightarrow>
                          tool_round cfg query messages response_message (tc # tcs) w4) of
                  (Inl e, w7) \<Rightarrow> (Inl e, w7)
                | (Inr (final_answer, srcs), w7) \<Rightarrow>
                    (Inr \<lparr>answer = final_answer, sources = srcs, result_session_id = sid\<rparr>,
                     add_message cfg sid ''assistant'' final_answer w7))))"

text \<open>Which external calls are completion calls, and which are searches.\<close>

fun is_completion :: "event \<Rightarrow> bool" where
  "is_completion (Completion messages tools) = True"
| "is_completion (Search query k) = False"

fun is_search :: "event \<Rightarrow> bool" where
  "is_search (Completion messages tools) = False"
| "is_search (Search query k) = True"

text \<open>
  The tool-result messages of a round, as the working list should receive them: one for
  each \<open>search_documents\<close> call, in the order of the calls, with the call's identifier
  and name and the text \<^verbatim>\<open>_search_documents\<close> returns for the call's arguments.
\<close>

fun tool_messages :: "config \<Rightarrow> string \<Rightarrow> world \<Rightarrow> tool_call list \<Rightarrow> wmsg list" where
  "tool_messages cfg query w [] = []"
| "tool_messages cfg query w (tool_call # rest) =
     (case fn_arguments tool_call of
        Malformed \<Rightarrow> []
      | Args q n \<Rightarrow>
          if fn_name tool_call = ''search_documents'' then
            (case fst (search_documents cfg (get_query q query) (get_num_results n) w) of
               Inl e \<Rightarrow> []
             | Inr search_results \<Rightarrow>
                 [ToolResult (tc_id tool_call) (fn_name tool_call) search_results])
          else []) @
     tool_messages cfg query w rest"

section \<open>The text splitter (app/rag/retriever.py)\<close>

text \<open>
  \<^verbatim>\<open>text.rfind(sub, start, stop)\<close>: the highest position \<open>i\<close> with
  \<open>start \<le> i\<close> and \<open>i + len(sub) \<le> stop\<close> (both bounds treated as slice bounds) at which
  \<open>sub\<close> occurs, or \<open>-1\<close>.
\<close>

definition rfind :: "string \<Rightarrow> string \<Rightarrow> int \<Rightarrow> int \<Rightarrow> int" where
  "rfind text sub start stop =
     (let n = int (length text); s = py_clamp n start; e = py_clamp n stop;
          found = filter (\<lambda>i. take (length sub) (drop i text) = sub) [s ..< Suc e - length sub]
      in if found = [] then - 1 else int (last found))"

text \<open>
  \<^verbatim>\<open>str.strip()\<close>: the characters for which \<^verbatim>\<open>str.isspace\<close> holds, among the code
  points below 256.
\<close>

definition is_space :: "char \<Rightarrow> bool" where
  "is_space c =
     (let n = (of_char c :: nat)
      in (9 \<le> n \<and> n \<le> 13) \<or> (28 \<le> n \<and> n \<le> 32) \<or> n = 133 \<or> n = 160)"

definition strip :: "string \<Rightarrow> string" where
  "strip s = rev (dropWhile is_space (rev (dropWhile is_space s)))"

text \<open>
  The value of \<^verbatim>\<open>end\<close> that one iteration of the loop of \<^verbatim>\<open>_split_text\<close> settles on:
  the raw cut, moved back to a paragraph break, else a sentence end, else a space.
\<close>

definition chunk_end :: "int \<Rightarrow> string \<Rightarrow> int \<Rightarrow> int" where
  "chunk_end chunk_size text start =
     (let end0 = start + chunk_size
      in if end0 < int (length text) then
           let last_newline = rfind text [CHR 0x0A, CHR 0x0A] start end0
           in if last_newline \<noteq> - 1 \<and> last_newline > start then last_newline + 2
              else
                let last_period = rfind text ''. '' start end0
                in if last_period \<noteq> - 1 \<and> last_period > start then last_period + 2
                   else
                     let last_space = rfind text '' '' start end0
                     in if last_space \<noteq> - 1 \<and> last_space > start then last_space + 1
                        else end0
         else end0)"

text \<open>\<^verbatim>\<open>start = end - self.chunk_overlap if end < text_length else text_length\<close>.\<close>

definition next_start :: "int \<Rightarrow> int \<Rightarrow> string \<Rightarrow> int \<Rightarrow> int" where
  "next_start chunk_size chunk_overlap text start =
     (let end1 = chunk_end chunk_size text start
      in if end1 < int (length text) then end1 - chunk_overlap else int (length text))"

text \<open>
  The \<^verbatim>\<open>while\<close> loop of \<^verbatim>\<open>_split_text\<close>, from a given \<open>start\<close> and list of chunks.  The
  loop need not end, so the result is optional: \<open>None\<close> stands for a loop that runs
  forever.
\<close>

partial_function (option) split_loop ::
  "int \<Rightarrow> int \<Rightarrow> string \<Rightarrow> int \<Rightarrow> string list \<Rightarrow> string list option"
where
  "split_loop chunk_size chunk_overlap text start chunks =
     (if start < int (length text) then
        let end1 = chunk_end chunk_size text start;
            chunk = strip (py_slice text start end1)
        in split_loop chunk_size chunk_overlap text
             (next_start chunk_size chunk_overlap text start)
             (if chunk \<noteq> [] then chunks @ [chunk] else chunks)
      else Some chunks)"

text \<open>\<^verbatim>\<open>DocumentRetriever._split_text\<close>.\<close>

definition split_text :: "int \<Rightarrow> int \<Rightarrow> string \<Rightarrow> string list option" where
  "split_text chunk_size chunk_overlap text = split_loop chunk_size chunk_overlap text 0 []"

section \<open>A small embedder and store for concrete runs\<close>

text \<open>
  A toy embedder, total and deterministic: one coordinate per character, \<open>1\<close> for the
  letter a and \<open>0\<close> for any other, so that the dimension is the length of the text.
\<close>

definition toy_vector :: "string \<Rightarrow> vector" where
  "toy_vector t = map (\<lambda>c. if c = CHR ''a'' then 1 else 0) t"

definition toy_embedder :: embedder where
  "toy_embedder =
     \<lparr>generate_embedding = (\<lambda>t. Inr (toy_vector t)),
      generate_embeddings_batch = (\<lambda>ts. Inr (map toy_vector ts))\<rparr>"

definition mk_doc :: "string \<Rightarrow> string \<Rightarrow> document" where
  "mk_doc text name =
     \<lparr>content = text, metadata = [(''source'', MStr name), (''chunk_id'', MInt 0),
                                 (''total_chunks'', MInt 1)]\<rparr>"

text \<open>The store after one successful \<^verbatim>\<open>add_documents\<close> of two chunks of dimension 2.\<close>

definition toy_store :: vector_store where
  "toy_store = snd (add_documents toy_embedder [mk_doc ''ab'' ''a.txt'', mk_doc ''ba'' ''b.txt''] init_store)"

section \<open>A small configuration and world for concrete runs\<close>

text \<open>
  A completion service that is total and deterministic.  Offered the tool schema, it asks
  for two searches when the last message is the user's text \<open>find\<close>, and answers
  directly otherwise; without the schema it answers \<open>done\<close>.
\<close>

definition toy_calls :: "tool_call list" where
  "toy_calls =
     [\<lparr>tc_id = ''call-1'', fn_name = ''search_documents'', fn_arguments = Args (Some ''ab'') (NumInt 1)\<rparr>,
      \<lparr>tc_id = ''call-2'', fn_name = ''search_documents'', fn_arguments = Args (Some ''ba'') (NumInt 1)\<rparr>]"

definition toy_completions :: "wmsg list \<Rightarrow> bool \<Rightarrow> error + reply" where
  "toy_completions messages tools =
     (if tools then
        (if messages \<noteq> [] \<and> last messages = Dict ''user'' ''find''
         then Inr \<lparr>reply_content = [], tool_calls = Some toy_calls\<rparr>
         else Inr \<lparr>reply_content = ''hello'', tool_calls = None\<rparr>)
      else Inr \<lparr>reply_content = ''done'', tool_calls = None\<rparr>)"

text \<open>
  The defaults of \<^verbatim>\<open>Settings\<close> (history 10, TTL 3600 seconds, 3 results), a clock that
  advances one second per reading, and identifiers \<open>s0\<close>, \<open>s1\<close>, ...
\<close>

definition toy_config :: config where
  "toy_config =
     \<lparr>max_history = 10, ttl = 3600, top_k_results = 3,
      clock = (\<lambda>n. real n),
      uuid4 = (\<lambda>n. CHR ''s'' # str_nat n),
      embeddings_generator = toy_embedder,
      completions_create = toy_completions\<rparr>"

text \<open>The process after start-up: no session, the store holding the two toy chunks.\<close>

definition toy_world :: world where
  "toy_world =
     \<lparr>sessions = Map.empty, session_timestamps = Map.empty, ticks = 0, uuids = 0,
      vstore = toy_store, trace = []\<rparr>"

text \<open>
  The process after a first session \<open>s0\<close> has been created: its system message was
  stamped at reading 2 and its timestamp refreshed at reading 3.
\<close>

definition toy_system_message :: message where
  "toy_system_message = \<lparr>msg_role = ''system'', msg_content = SYSTEM_PROMPT, msg_timestamp = 2\<rparr>"

definition toy_world_session :: world where
  "toy_world_session =
     \<lparr>sessions = [''s0'' \<mapsto> [toy_system_message]], session_timestamps = [''s0'' \<mapsto> 3],
      ticks = 4, uuids = 1, vstore = toy_store, trace = []\<rparr>"

text \<open>The same process much later: the clock reads 4000, the session was last active at 3.\<close>

definition toy_world_idle :: world where
  "toy_world_idle = toy_world_session\<lparr>ticks := 4000\<rparr>"

text \<open>The same process once the user message of a query has been stored and the history read.\<close>

definition toy_world_asked :: "string \<Rightarrow> world" where
  "toy_world_asked query =
     toy_world_session\<lparr>ticks := 9,
        sessions := [''s0'' \<mapsto> [toy_system_message,
           \<lparr>msg_role = ''user'', msg_content = query, msg_timestamp = 6\<rparr>]],
        session_timestamps := [''s0'' \<mapsto> 7]\<rparr>"

text \<open>
  A configuration with a TTL of one second in which the completion service is slow: the
  clock reads 3 up to the first completion call of the query below and 6 after it.
\<close>

definition slow_config :: config where
  "slow_config = toy_config\<lparr>ttl := 1, clock := (\<lambda>n. if n < 9 then 3 else 6)\<rparr>"

text \<open>A configuration with a TTL of zero seconds.\<close>

definition zero_ttl_config :: config where
  "zero_ttl_config = toy_config\<lparr>ttl := 0\<rparr>"

section \<open>Properties of the vector store\<close>

lemma store_ok_init: "store_ok init_store"
  by (simp add: store_ok_def init_store_def)

lemma store_ok_clear: "store_ok (clear st)"
  by (simp add: store_ok_def clear_def)

lemma add_documents_first:
  assumes "index st = None" "docs \<noteq> []"
    "generate_embeddings_batch E (map content docs) = Inr (r # rs)"
    "list_all (\<lambda>r'. length r' = length r) rs"
  shows "add_documents E docs st =
     (None, st\<lparr>dimension := Some (length r),
               index := Some \<lparr>idx_d = length r, idx_xb = r # rs\<rparr>,
               documents := documents st @ docs, is_initialized := True\<rparr>)"
  using assms
  by (simp add: add_documents_def np_array_def shape1_def faiss_add_def IndexFlatL2_def)

lemma add_documents_next:
  assumes "index st = Some ix" "docs \<noteq> []"
    "generate_embeddings_batch E (map content docs) = Inr (r # rs)"
    "list_all (\<lambda>r'. length r' = length r) rs" "length r = idx_d ix"
  shows "add_documents E docs st =
     (None, st\<lparr>index := Some (ix\<lparr>idx_xb := idx_xb ix @ r # rs\<rparr>),
               documents := documents st @ docs, is_initialized := True\<rparr>)"
  using assms
  by (simp add: add_documents_def np_array_def shape1_def faiss_add_def)

lemma add_documents_mismatch:
  assumes "index st = Some ix" "docs \<noteq> []"
    "generate_embeddings_batch E (map content docs) = Inr (r # rs)"
    "list_all (\<lambda>r'. length r' = length r) rs" "length r \<noteq> idx_d ix"
  shows "add_documents E docs st = (Some DimensionMismatch, st)"
  using assms
  by (simp add: add_documents_def np_array_def shape1_def faiss_add_def)

lemma add_documents_cases:
  "snd (add_documents E docs st) = st \<or>
   (\<exists>r rs. docs \<noteq> [] \<and> generate_embeddings_batch E (map content docs) = Inr (r # rs) \<and>
      list_all (\<lambda>r'. length r' = length r) rs \<and>
      (case index st of None \<Rightarrow> True | Some ix \<Rightarrow> length r = idx_d ix))"
  by (simp add: add_documents_def np_array_def shape1_def faiss_add_def
      split: sum.splits list.splits option.splits)

lemma add_documents_keeps_d:
  assumes "index st = Some ix"
  shows "\<exists>ix'. index (snd (add_documents E docs st)) = Some ix' \<and> idx_d ix' = idx_d ix"
  using add_documents_cases[of E docs st]
proof (elim disjE exE conjE)
  assume "snd (add_documents E docs st) = st"
  with assms show ?thesis by simp
next
  fix r rs
  assume "docs \<noteq> []" "generate_embeddings_batch E (map content docs) = Inr (r # rs)"
    "list_all (\<lambda>r'. length r' = length r) rs"
    "case index st of None \<Rightarrow> True | Some ix \<Rightarrow> length r = idx_d ix"
  with assms show ?thesis by (simp add: add_documents_next)
qed

lemma store_ok_add_documents:
  assumes "store_ok st" and "embedder_ok E"
  shows "store_ok (snd (add_documents E docs st))"
  using add_documents_cases[of E docs st]
proof (elim disjE exE conjE)
  assume "snd (add_documents E docs st) = st"
  with assms show ?thesis by simp
next
  fix r rs
  assume a: "docs \<noteq> []" "generate_embeddings_batch E (map content docs) = Inr (r # rs)"
    "list_all (\<lambda>r'. length r' = length r) rs"
    "case index st of None \<Rightarrow> True | Some ix \<Rightarrow> length r = idx_d ix"
  from assms(2) a(2) have "length (r # rs) = length (map content docs)"
    unfolding embedder_ok_def by blast
  then have len: "length (r # rs) = length docs" by simp
  show ?thesis
  proof (cases "index st")
    case None
    with assms(1) have "documents st = []" by (simp add: store_ok_def)
    with None a len show ?thesis
      by (simp add: add_documents_first store_ok_def)
  next
    case (Some ix)
    with assms(1) have ok: "length (idx_xb ix) = length (documents st)"
      "list_all (\<lambda>v. length v = idx_d ix) (idx_xb ix)"
      by (simp_all add: store_ok_def)
    from Some a(4) have "length r = idx_d ix" by simp
    with Some a ok len show ?thesis
      by (simp add: add_documents_next store_ok_def)
  qed
qed

lemma add_all_keeps_d:
  "index st = Some ix \<Longrightarrow> \<exists>ix'. index (add_all E bs st) = Some ix' \<and> idx_d ix' = idx_d ix"
proof (induction bs arbitrary: st ix)
  case Nil
  then show ?case by simp
next
  case (Cons b bs)
  from add_documents_keeps_d[OF Cons.prems, of E b]
  obtain ix1 where "index (snd (add_documents E b st)) = Some ix1" "idx_d ix1 = idx_d ix"
    by blast
  with Cons.IH[of "snd (add_documents E b st)" ix1] show ?case by simp
qed

lemma collect_results_in_range:
  "\<forall>(i, dist) \<in> set found. 0 \<le> i \<and> i < int (length ds) \<Longrightarrow>
   collect_results ds found acc = Inr (acc @ map (\<lambda>(i, dist). (ds ! nat i, dist)) found)"
proof (induction found arbitrary: acc)
  case Nil
  then show ?case by simp
next
  case (Cons p found)
  obtain i dist where p: "p = (i, dist)" by (cases p)
  with Cons.prems have "0 \<le> i" "i < int (length ds)" by auto
  then have "py_index ds i = Inr (ds ! nat i)" by (simp add: py_index_def)
  with Cons p \<open>i < int (length ds)\<close> show ?case by simp
qed

lemma faiss_search_ranked:
  assumes "length q = idx_d ix" "1 \<le> k" "k \<le> int (length (idx_xb ix))"
  shows "faiss_search ix q k = Inr (take (nat k) (ranked_rows ix q))"
proof -
  have "length (ranked_rows ix q) = length (idx_xb ix)"
    by (simp add: ranked_rows_def)
  with assms show ?thesis
    by (simp add: faiss_search_def ranked_rows_def Let_def)
qed

lemma ranked_rows_set:
  "set (ranked_rows ix q) = {(int i, sqdist q (idx_xb ix ! i)) | i. i < length (idx_xb ix)}"
proof -
  have "set (ranked_rows ix q) = set (zip (map int [0 ..< length (idx_xb ix)]) (map (sqdist q) (idx_xb ix)))"
    by (simp add: ranked_rows_def)
  also have "\<dots> = {(int i, sqdist q (idx_xb ix ! i)) | i. i < length (idx_xb ix)}"
    by (force simp: set_zip)
  finally show ?thesis .
qed

lemma ranked_rows_sorted: "sorted (map snd (ranked_rows ix q))"
  by (simp add: ranked_rows_def)

lemma search_uninitialized: "index st = None \<Longrightarrow> search E top_k st query k = Inr []"
  by (simp add: search_def)

lemma search_ranked:
  assumes "store_ok st" "index st = Some ix" "generate_embedding E query = Inr qv"
    "length qv = idx_d ix" "1 \<le> k_or_default k top_k"
  shows "search E top_k st query k =
     Inr (map (\<lambda>(i, dist). (documents st ! nat i, dist))
            (take (nat (min (k_or_default k top_k) (int (length (documents st))))) (ranked_rows ix qv)))"
proof -
  let ?k2 = "min (k_or_default k top_k) (int (length (documents st)))"
  from assms(1,2) have ok: "is_initialized st" "documents st \<noteq> []"
    "length (idx_xb ix) = length (documents st)"
    by (simp_all add: store_ok_def)
  from ok(2) have "1 \<le> int (length (documents st))" by (cases "documents st") auto
  with assms(5) have k2: "1 \<le> ?k2" "?k2 \<le> int (length (idx_xb ix))"
    using ok(3) by auto
  have fs: "faiss_search ix qv ?k2 = Inr (take (nat ?k2) (ranked_rows ix qv))"
    using faiss_search_ranked[OF assms(4) k2] .
  have "\<forall>(i, dist) \<in> set (take (nat ?k2) (ranked_rows ix qv)). 0 \<le> i \<and> i < int (length (documents st))"
  proof -
    have "set (take (nat ?k2) (ranked_rows ix qv)) \<subseteq> set (ranked_rows ix qv)"
      by (rule set_take_subset)
    then show ?thesis using ok(3) by (auto simp: ranked_rows_set)
  qed
  from collect_results_in_range[OF this, of "[]"] fs assms(2,3) ok(1) show ?thesis
    by (simp add: search_def Let_def)
qed

lemma toy_store_eq:
  "toy_store = \<lparr>index = Some \<lparr>idx_d = 2, idx_xb = [[1, 0], [0, 1]]\<rparr>,
      documents = [mk_doc ''ab'' ''a.txt'', mk_doc ''ba'' ''b.txt''],
      dimension = Some 2, is_initialized = True\<rparr>"
  by (simp add: toy_store_def add_documents_def np_array_def shape1_def faiss_add_def
      IndexFlatL2_def toy_embedder_def toy_vector_def init_store_def mk_doc_def)

lemma store_ok_toy_store: "store_ok toy_store"
  by (simp add: toy_store_eq store_ok_def)

section \<open>Properties of the session memory\<close>

lemma is_session_valid_absent:
  "sessions w sid = None \<Longrightarrow> is_session_valid cfg sid w = (False, w)"
  by (simp add: is_session_valid_def)

lemma is_session_valid_fresh:
  "sessions w sid = Some h \<Longrightarrow> clock cfg (ticks w) - last_access w sid \<le> real_of_int (ttl cfg) \<Longrightarrow>
   is_session_valid cfg sid w = (True, w\<lparr>ticks := Suc (ticks w)\<rparr>)"
  by (simp add: is_session_valid_def time_time_def)

lemma is_session_valid_expired:
  "sessions w sid = Some h \<Longrightarrow> clock cfg (ticks w) - last_access w sid > real_of_int (ttl cfg) \<Longrightarrow>
   is_session_valid cfg sid w = (False, cleanup_session sid (w\<lparr>ticks := Suc (ticks w)\<rparr>))"
  by (simp add: is_session_valid_def time_time_def)

lemma add_message_absent:
  "sessions w sid = None \<Longrightarrow> add_message cfg sid role txt w = w"
  by (simp add: add_message_def is_session_valid_absent)

lemma add_message_expired:
  "sessions w sid = Some h \<Longrightarrow> clock cfg (ticks w) - last_access w sid > real_of_int (ttl cfg) \<Longrightarrow>
   add_message cfg sid role txt w = cleanup_session sid (w\<lparr>ticks := Suc (ticks w)\<rparr>)"
  by (simp add: add_message_def is_session_valid_expired)

lemma add_message_fresh:
  "sessions w sid = Some h \<Longrightarrow> clock cfg (ticks w) - last_access w sid \<le> real_of_int (ttl cfg) \<Longrightarrow>
   add_message cfg sid role txt w =
     w\<lparr>ticks := ticks w + 3,
       sessions := (sessions w)(sid \<mapsto> trim_history (max_history cfg)
          (h @ [\<lparr>msg_role = role, msg_content = txt, msg_timestamp = clock cfg (ticks w + 1)\<rparr>])),
       session_timestamps := (session_timestamps w)(sid \<mapsto> clock cfg (ticks w + 2))\<rparr>"
  by (simp add: add_message_def is_session_valid_fresh time_time_def session_list_def)

lemma get_history_absent:
  "sessions w sid = None \<Longrightarrow> get_history cfg sid w = ([], w)"
  by (simp add: get_history_def is_session_valid_absent)

lemma get_history_fresh:
  "sessions w sid = Some h \<Longrightarrow> clock cfg (ticks w) - last_access w sid \<le> real_of_int (ttl cfg) \<Longrightarrow>
   get_history cfg sid w = (map to_dict h, w\<lparr>ticks := Suc (ticks w)\<rparr>)"
  by (simp add: get_history_def is_session_valid_fresh session_list_def)

lemma get_history_expired:
  "sessions w sid = Some h \<Longrightarrow> clock cfg (ticks w) - last_access w sid > real_of_int (ttl cfg) \<Longrightarrow>
   get_history cfg sid w = ([], cleanup_session sid (w\<lparr>ticks := Suc (ticks w)\<rparr>))"
  by (simp add: get_history_def is_session_valid_expired)

lemma create_session_eq:
  "create_session cfg w =
     (uuid4 cfg (uuids w),
      w\<lparr>uuids := Suc (uuids w), ticks := Suc (ticks w),
        sessions := (sessions w)(uuid4 cfg (uuids w) \<mapsto> []),
        session_timestamps := (session_timestamps w)(uuid4 cfg (uuids w) \<mapsto> clock cfg (ticks w))\<rparr>)"
  by (simp add: create_session_def time_time_def Let_def)

lemma py_slice_from_last:
  "0 < n \<Longrightarrow> py_slice_from xs (- n) = most_recent (nat n) xs"
  by (simp add: py_slice_from_def py_clamp_def most_recent_def max_def nat_diff_distrib')

lemma trim_history_pos:
  assumes "1 \<le> mh"
  shows "trim_history mh msgs =
     (if int (length msgs) > mh * 2
      then system_of msgs @ most_recent (nat (mh * 2)) (others_of msgs) else msgs)"
proof -
  from assms have pos: "0 < mh * 2" by simp
  show ?thesis
    by (simp add: trim_history_def system_of_def others_of_def Let_def py_slice_from_last[OF pos])
qed

lemma system_of_append [simp]: "system_of (xs @ ys) = system_of xs @ system_of ys"
  by (simp add: system_of_def)

lemma others_of_append [simp]: "others_of (xs @ ys) = others_of xs @ others_of ys"
  by (simp add: others_of_def)

lemma system_of_Cons: "system_of (m # ms) = system_of [m] @ system_of ms"
  by (simp add: system_of_def)

lemma others_of_Cons: "others_of (m # ms) = others_of [m] @ others_of ms"
  by (simp add: others_of_def)

lemma system_of_system [simp]: "system_of (system_of xs) = system_of xs"
  by (simp add: system_of_def)

lemma others_of_system [simp]: "others_of (system_of xs) = []"
  by (simp add: system_of_def others_of_def)

lemma system_of_recent_others [simp]: "system_of (most_recent n (others_of xs)) = []"
proof -
  have "set (most_recent n (others_of xs)) \<subseteq> set (others_of xs)"
    unfolding most_recent_def by (rule set_drop_subset)
  then show ?thesis by (auto simp: system_of_def others_of_def filter_empty_conv)
qed

lemma others_of_recent_others [simp]:
  "others_of (most_recent n (others_of xs)) = most_recent n (others_of xs)"
proof -
  have "set (most_recent n (others_of xs)) \<subseteq> set (others_of xs)"
    unfolding most_recent_def by (rule set_drop_subset)
  then show ?thesis by (auto simp: others_of_def filter_id_conv)
qed

lemma length_parts: "length xs = length (system_of xs) + length (others_of xs)"
  unfolding system_of_def others_of_def by (rule sum_length_filter_compl[symmetric])

lemma most_recent_all: "length xs \<le> n \<Longrightarrow> most_recent n xs = xs"
  by (simp add: most_recent_def)

lemma length_most_recent: "length (most_recent n xs) = min n (length xs)"
  by (simp add: most_recent_def)

lemma most_recent_append:
  "most_recent n (most_recent n xs @ ys) = most_recent n (xs @ ys)"
proof (cases "length xs \<le> n")
  case True
  then show ?thesis by (simp add: most_recent_all)
next
  case False
  then have "length xs - n + length ys = length xs + length ys - n" by simp
  with False show ?thesis
    by (simp add: most_recent_def min_def add.commute)
qed

lemma system_of_trim: "1 \<le> mh \<Longrightarrow> system_of (trim_history mh msgs) = system_of msgs"
  by (simp add: trim_history_pos)

lemma others_of_trim:
  assumes "1 \<le> mh"
  shows "others_of (trim_history mh msgs) = most_recent (nat (mh * 2)) (others_of msgs)"
proof (cases "int (length msgs) > mh * 2")
  case True
  with assms show ?thesis by (simp add: trim_history_pos)
next
  case False
  then have "length (others_of msgs) \<le> nat (mh * 2)"
    using length_parts[of msgs] by linarith
  with False assms show ?thesis by (simp add: trim_history_pos most_recent_all)
qed

lemma append_trim_snoc:
  "append_trim mh h (ms @ [m]) = trim_history mh (append_trim mh h ms @ [m])"
  by (induction ms arbitrary: h) simp_all

lemma system_of_append_trim:
  "1 \<le> mh \<Longrightarrow> system_of (append_trim mh h ms) = system_of (h @ ms)"
  by (induction ms arbitrary: h) (simp_all add: system_of_trim system_of_Cons[symmetric])

lemma others_of_append_trim:
  "1 \<le> mh \<Longrightarrow> ms \<noteq> [] \<Longrightarrow>
   others_of (append_trim mh h ms) = most_recent (nat (mh * 2)) (others_of (h @ ms))"
proof (induction ms arbitrary: h)
  case Nil
  then show ?case by simp
next
  case (Cons m ms)
  show ?case
  proof (cases "ms = []")
    case True
    with Cons.prems show ?thesis by (simp add: others_of_trim)
  next
    case False
    from Cons.IH[OF Cons.prems(1) False, of "trim_history mh (h @ [m])"] Cons.prems(1)
    show ?thesis
      by (simp add: others_of_trim most_recent_append others_of_Cons[symmetric])
  qed
qed

lemma append_trim_full:
  assumes mh: "1 \<le> mh" and ne: "ms \<noteq> []"
    and over: "int (length (others_of (h @ ms))) > mh * 2"
  shows "append_trim mh h ms =
           system_of (h @ ms) @ most_recent (nat (mh * 2)) (others_of (h @ ms))"
proof -
  from ne obtain ms' m where ms: "ms = ms' @ [m]" by (cases ms rule: rev_cases) auto
  let ?S = "append_trim mh h ms'"
  let ?L = "?S @ [m]"
  let ?N = "nat (mh * 2)"
  have res: "append_trim mh h ms = trim_history mh ?L" by (simp add: ms append_trim_snoc)
  have one: "length (others_of [m]) \<le> 1" by (simp add: others_of_def)
  have long: "int (length ?L) > mh * 2"
  proof (cases "ms' = []")
    case True
    with over ms have "int (length (others_of (h @ [m]))) > mh * 2" by simp
    moreover have "length (others_of (h @ [m])) \<le> length (h @ [m])"
      using length_parts[of "h @ [m]"] by linarith
    ultimately show ?thesis using True by simp
  next
    case False
    have oS: "length (others_of ?S) = min ?N (length (others_of (h @ ms')))"
      by (simp only: others_of_append_trim[OF mh False] length_most_recent)
    from over ms have "int (length (others_of (h @ ms'))) + int (length (others_of [m])) > mh * 2"
      by simp
    with one mh have "?N \<le> length (others_of (h @ ms'))" by linarith
    with oS have "length (others_of ?S) = ?N" by simp
    moreover have "length (others_of ?S) \<le> length ?S" using length_parts[of ?S] by linarith
    ultimately show ?thesis using mh by simp
  qed
  have "trim_history mh ?L = system_of ?L @ most_recent ?N (others_of ?L)"
    using long by (simp only: trim_history_pos[OF mh] if_True)
  also have "system_of ?L = system_of (trim_history mh ?L)"
    by (simp only: system_of_trim[OF mh])
  also have "most_recent ?N (others_of ?L) = others_of (trim_history mh ?L)"
    by (simp only: others_of_trim[OF mh])
  finally have "append_trim mh h ms =
      system_of (append_trim mh h ms) @ others_of (append_trim mh h ms)"
    by (simp only: res)
  then show ?thesis
    by (simp only: system_of_append_trim[OF mh] others_of_append_trim[OF mh ne])
qed

lemma last_access_fresh_message:
  "last_access (w\<lparr>ticks := t, sessions := s, session_timestamps := (session_timestamps w)(sid \<mapsto> x)\<rparr>) sid = x"
  by (simp add: last_access_def)

lemma add_messages_append_trim:
  assumes "sessions w sid = Some h"
    and "clock cfg (ticks w) - last_access w sid \<le> real_of_int (ttl cfg)"
    and "\<forall>n. clock cfg (Suc n) - clock cfg n \<le> real_of_int (ttl cfg)"
  shows "sessions (add_messages cfg sid ms w) sid =
           Some (append_trim (max_history cfg) h (stamped cfg (ticks w) ms))"
  using assms
proof (induction ms arbitrary: w h)
  case Nil
  then show ?case by simp
next
  case (Cons p ms)
  obtain role tx where p: "p = (role, tx)" by (cases p)
  let ?m = "\<lparr>msg_role = role, msg_content = tx, msg_timestamp = clock cfg (ticks w + 1)\<rparr>"
  let ?h = "trim_history (max_history cfg) (h @ [?m])"
  let ?w = "w\<lparr>ticks := ticks w + 3, sessions := (sessions w)(sid \<mapsto> ?h),
       session_timestamps := (session_timestamps w)(sid \<mapsto> clock cfg (ticks w + 2))\<rparr>"
  have a: "add_message cfg sid role tx w = ?w"
    by (rule add_message_fresh[OF Cons.prems(1,2)])
  have s: "sessions ?w sid = Some ?h" by simp
  have "clock cfg (Suc (ticks w + 2)) - clock cfg (ticks w + 2) \<le> real_of_int (ttl cfg)"
    using Cons.prems(3) by blast
  then have f: "clock cfg (ticks ?w) - last_access ?w sid \<le> real_of_int (ttl cfg)"
    by (simp add: last_access_def eval_nat_numeral)
  from Cons.IH[OF s f Cons.prems(3)] show ?case
    by (simp add: p a)
qed

lemma trim_after_appends:
  assumes "1 \<le> max_history cfg"
    and "sessions w sid = Some h"
    and "clock cfg (ticks w) - last_access w sid \<le> real_of_int (ttl cfg)"
    and "\<forall>n. clock cfg (Suc n) - clock cfg n \<le> real_of_int (ttl cfg)"
    and "ms \<noteq> []"
    and "int (length (others_of (h @ stamped cfg (ticks w) ms))) > max_history cfg * 2"
  shows "sessions (add_messages cfg sid ms w) sid =
           Some (system_of (h @ stamped cfg (ticks w) ms) @
                 most_recent (nat (max_history cfg * 2)) (others_of (h @ stamped cfg (ticks w) ms)))"
proof -
  from assms(5) have "stamped cfg (ticks w) ms \<noteq> []" by (cases ms) auto
  from append_trim_full[OF assms(1) this assms(6)] add_messages_append_trim[OF assms(2,3,4)]
  show ?thesis by simp
qed

lemma length_stamped [simp]: "length (stamped cfg t ms) = length ms"
  by (induction ms arbitrary: t) auto

lemma roles_stamped: "map msg_role (stamped cfg t ms) = map fst ms"
  by (induction ms arbitrary: t) auto

lemma stamped_no_system:
  assumes "''system'' \<notin> set (map fst ms)"
  shows "system_of (stamped cfg t ms) = []" and "others_of (stamped cfg t ms) = stamped cfg t ms"
proof -
  have "\<forall>m \<in> set (stamped cfg t ms). msg_role m \<noteq> ''system''"
    using assms roles_stamped[of cfg t ms]
    by (metis image_eqI list.set_map)
  then show "system_of (stamped cfg t ms) = []" "others_of (stamped cfg t ms) = stamped cfg t ms"
    by (auto simp: system_of_def others_of_def filter_empty_conv filter_id_conv)
qed

lemma twenty_five_appends:
  assumes "max_history cfg = 10"
    and "sessions w sid = Some h"
    and "clock cfg (ticks w) - last_access w sid \<le> real_of_int (ttl cfg)"
    and "\<forall>n. clock cfg (Suc n) - clock cfg n \<le> real_of_int (ttl cfg)"
    and "length ms = 25"
    and "''system'' \<notin> set (map fst ms)"
  shows "sessions (add_messages cfg sid ms w) sid =
           Some (system_of h @ drop 5 (stamped cfg (ticks w) ms))"
proof -
  let ?S = "stamped cfg (ticks w) ms"
  note ns = stamped_no_system[OF assms(6), of cfg "ticks w"]
  have mh: "1 \<le> max_history cfg" using assms(1) by simp
  have ne: "ms \<noteq> []" using assms(5) by auto
  have over: "int (length (others_of (h @ ?S))) > max_history cfg * 2"
    using assms(1,5) by (simp add: ns)
  have "most_recent (nat (max_history cfg * 2)) (others_of (h @ ?S)) = drop 5 ?S"
    using assms(1,5) by (simp add: ns most_recent_def)
  with trim_after_appends[OF mh assms(2,3,4) ne over] show ?thesis
    by (simp add: ns)
qed

section \<open>Properties of the agent\<close>

lemma retrieve_world:
  "snd (retrieve cfg query k w) = w\<lparr>trace := trace w @ [Search query k]\<rparr>"
  by (simp add: retrieve_def Let_def)

lemma search_documents_world:
  "snd (search_documents cfg query k w) = w\<lparr>trace := trace w @ [Search query k]\<rparr>"
proof -
  obtain res w1 where r: "retrieve cfg query k w = (res, w1)" by (cases "retrieve cfg query k w")
  with retrieve_world[of cfg query k w] have "w1 = w\<lparr>trace := trace w @ [Search query k]\<rparr>" by simp
  with r show ?thesis by (cases res) (simp_all add: search_documents_def)
qed

lemma run_tool_calls_world:
  "\<exists>evs. snd (run_tool_calls cfg query tcs messages srcs w) = w\<lparr>trace := trace w @ evs\<rparr> \<and>
         list_all is_search evs"
proof (induction tcs arbitrary: messages srcs w)
  case Nil
  show ?case by (intro exI[of _ "[]"]) simp
next
  case (Cons tc tcs)
  show ?case
  proof (cases "fn_arguments tc")
    case Malformed
    then show ?thesis by (intro exI[of _ "[]"]) simp
  next
    case (Args q n)
    show ?thesis
    proof (cases "fn_name tc = ''search_documents''")
      case False
      with Args Cons.IH[of messages srcs w] show ?thesis by simp
    next
      case True
      let ?q = "get_query q query" and ?k = "get_num_results n"
      let ?w1 = "w\<lparr>trace := trace w @ [Search ?q ?k]\<rparr>"
      let ?w2 = "?w1\<lparr>trace := trace ?w1 @ [Search ?q ?k]\<rparr>"
      obtain r1 where r1: "search_documents cfg ?q ?k w = (r1, ?w1)"
        using search_documents_world[of cfg ?q ?k w] by (cases "search_documents cfg ?q ?k w") simp
      show ?thesis
      proof (cases r1)
        case (Inl e)
        with r1 Args True have "snd (run_tool_calls cfg query (tc # tcs) messages srcs w) = ?w1"
          by simp
        then show ?thesis by (intro exI[of _ "[Search ?q ?k]"]) simp
      next
        case (Inr search_results)
        obtain r2 where r2: "retrieve cfg ?q ?k ?w1 = (r2, ?w2)"
          using retrieve_world[of cfg ?q ?k ?w1] by (cases "retrieve cfg ?q ?k ?w1") simp
        show ?thesis
        proof (cases r2)
          case (Inl e)
          with r1 r2 Inr Args True have "snd (run_tool_calls cfg query (tc # tcs) messages srcs w) = ?w2"
            by simp
          then show ?thesis by (intro exI[of _ "[Search ?q ?k, Search ?q ?k]"]) simp
        next
          case docs: (Inr retrieved_docs)
          let ?m = "messages @ [ToolResult (tc_id tc) (fn_name tc) search_results]"
          let ?s = "list_set (map r_source retrieved_docs)"
          from Cons.IH[of ?m ?s ?w2] obtain evs where
            evs: "snd (run_tool_calls cfg query tcs ?m ?s ?w2) = ?w2\<lparr>trace := trace ?w2 @ evs\<rparr>"
              "list_all is_search evs" by blast
          from r1 r2 Inr docs Args True
          have "run_tool_calls cfg query (tc # tcs) messages srcs w = run_tool_calls cfg query tcs ?m ?s ?w2"
            by simp
          with evs have "snd (run_tool_calls cfg query (tc # tcs) messages srcs w) =
              w\<lparr>trace := trace w @ (Search ?q ?k # Search ?q ?k # evs)\<rparr>" by simp
          with evs(2) show ?thesis by (intro exI[of _ "Search ?q ?k # Search ?q ?k # evs"]) simp
        qed
      qed
    qed
  qed
qed

lemma last_access_trace [simp]: "last_access (w\<lparr>trace := x\<rparr>) sid = last_access w sid"
  by (simp add: last_access_def)

lemma add_message_trace_update:
  "add_message cfg sid role txt (w\<lparr>trace := x\<rparr>) = (add_message cfg sid role txt w)\<lparr>trace := x\<rparr>"
proof (cases "sessions w sid")
  case None
  then show ?thesis by (simp add: add_message_absent)
next
  case (Some h)
  show ?thesis
  proof (cases "clock cfg (ticks w) - last_access w sid \<le> real_of_int (ttl cfg)")
    case True
    with Some show ?thesis by (simp add: add_message_fresh)
  next
    case False
    with Some show ?thesis by (simp add: add_message_expired cleanup_session_def)
  qed
qed

lemma trace_add_message [simp]: "trace (add_message cfg sid role txt w) = trace w"
proof (cases "sessions w sid")
  case None
  then show ?thesis by (simp add: add_message_absent)
next
  case (Some h)
  show ?thesis
  proof (cases "clock cfg (ticks w) - last_access w sid \<le> real_of_int (ttl cfg)")
    case True
    with Some show ?thesis by (simp add: add_message_fresh)
  next
    case False
    with Some show ?thesis by (simp add: add_message_expired cleanup_session_def)
  qed
qed

lemma trace_is_session_valid [simp]: "trace (snd (is_session_valid cfg sid w)) = trace w"
  by (simp add: is_session_valid_def time_time_def cleanup_session_def split: option.splits)

lemma trace_get_history [simp]: "trace (snd (get_history cfg sid w)) = trace w"
proof -
  obtain v w1 where v: "is_session_valid cfg sid w = (v, w1)" by (cases "is_session_valid cfg sid w")
  with trace_is_session_valid[of cfg sid w] have "trace w1 = trace w" by simp
  with v show ?thesis by (simp add: get_history_def)
qed

lemma trace_create_session [simp]: "trace (snd (create_session cfg w)) = trace w"
  by (simp add: create_session_eq)

lemma trace_resolve_session [simp]: "trace (snd (resolve_session cfg session_id w)) = trace w"
proof -
  let ?found = "(case session_id of None \<Rightarrow> (False, w)
      | Some s \<Rightarrow> if s = [] then (False, w) else session_exists cfg s w)"
  obtain f w1 where f: "?found = (f, w1)" by (cases ?found)
  have t1: "trace w1 = trace w"
  proof (cases session_id)
    case None
    with f show ?thesis by simp
  next
    case (Some s)
    with f trace_is_session_valid[of cfg s w] show ?thesis
      by (cases "s = []") (auto simp: session_exists_def)
  qed
  obtain new_id w2 where c: "create_session cfg w1 = (new_id, w2)" by (cases "create_session cfg w1")
  with trace_create_session[of cfg w1] have "trace w2 = trace w1" by simp
  with f c t1 show ?thesis by (simp add: resolve_session_def)
qed

lemma trace_prepare:
  assumes "prepare cfg query session_id w = (sid, messages, w3)"
  shows "trace w3 = trace w"
proof -
  obtain sid' w1 where r: "resolve_session cfg session_id w = (sid', w1)"
    by (cases "resolve_session cfg session_id w")
  obtain m w3' where g: "get_history cfg sid' (add_message cfg sid' ''user'' query w1) = (m, w3')"
    by (cases "get_history cfg sid' (add_message cfg sid' ''user'' query w1)")
  from r trace_resolve_session[of cfg session_id w] have "trace w1 = trace w" by simp
  moreover from g trace_get_history[of cfg sid' "add_message cfg sid' ''user'' query w1"]
  have "trace w3' = trace w1" by simp
  moreover from assms r g have "w3 = w3'" by (simp add: prepare_def)
  ultimately show ?thesis by simp
qed

lemma tool_round_world:
  "\<exists>evs. snd (tool_round cfg query messages rm tcs w) = w\<lparr>trace := trace w @ evs\<rparr> \<and>
         (filter is_completion evs = [] \<or> (\<exists>m. filter is_completion evs = [Completion m False]))"
proof -
  let ?m0 = "messages @ [AssistantReply rm]"
  from run_tool_calls_world[of cfg query tcs ?m0 "[]" w] obtain evs where
    evs: "snd (run_tool_calls cfg query tcs ?m0 [] w) = w\<lparr>trace := trace w @ evs\<rparr>"
      "list_all is_search evs" by blast
  have nc: "filter is_completion evs = []"
    using evs(2) by (induction evs) (auto elim: is_search.elims)
  obtain r1 where r1: "run_tool_calls cfg query tcs ?m0 [] w = (r1, w\<lparr>trace := trace w @ evs\<rparr>)"
    using evs(1) by (cases "run_tool_calls cfg query tcs ?m0 [] w") simp
  show ?thesis
  proof (cases r1)
    case (Inl e)
    with r1 have "snd (tool_round cfg query messages rm tcs w) = w\<lparr>trace := trace w @ evs\<rparr>"
      by (simp add: tool_round_def)
    with nc show ?thesis by blast
  next
    case (Inr p)
    obtain m' s' where p: "p = (m', s')" by (cases p)
    with r1 Inr have "snd (tool_round cfg query messages rm tcs w) =
        w\<lparr>trace := trace w @ (evs @ [Completion m' False])\<rparr>"
      by (cases "completions_create cfg m' False") (simp_all add: tool_round_def call_completion_def)
    moreover have "filter is_completion (evs @ [Completion m' False]) = [Completion m' False]"
      using nc by simp
    ultimately show ?thesis by blast
  qed
qed

lemma process_query_completion_error:
  assumes "prepare cfg query session_id w = (sid, messages, w3)"
    and "completions_create cfg messages True = Inl e"
  shows "process_query cfg query session_id w =
           (Inl e, w3\<lparr>trace := trace w3 @ [Completion messages True]\<rparr>)"
  using assms by (simp add: process_query_def call_completion_def)

lemma process_query_direct:
  assumes "prepare cfg query session_id w = (sid, messages, w3)"
    and "completions_create cfg messages True = Inr rm"
    and "tool_calls rm = None \<or> tool_calls rm = Some []"
  shows "process_query cfg query session_id w =
           (Inr \<lparr>answer = reply_content rm, sources = [], result_session_id = sid\<rparr>,
            add_message cfg sid ''assistant'' (reply_content rm)
              (w3\<lparr>trace := trace w3 @ [Completion messages True]\<rparr>))"
  using assms by (auto simp: process_query_def call_completion_def)

lemma process_query_tools:
  assumes "prepare cfg query session_id w = (sid, messages, w3)"
    and "completions_create cfg messages True = Inr rm"
    and "tool_calls rm = Some (tc # tcs)"
  shows "process_query cfg query session_id w =
           (case tool_round cfg query messages rm (tc # tcs)
                   (w3\<lparr>trace := trace w3 @ [Completion messages True]\<rparr>) of
              (Inl e, w7) \<Rightarrow> (Inl e, w7)
            | (Inr (final_answer, srcs), w7) \<Rightarrow>
                (Inr \<lparr>answer = final_answer, sources = srcs, result_session_id = sid\<rparr>,
                 add_message cfg sid ''assistant'' final_answer w7))"
  using assms by (simp add: process_query_def call_completion_def)

lemma process_query_frame:
  assumes p: "prepare cfg query session_id w = (sid, messages, w3)"
  shows "\<exists>evs. (filter is_completion evs = [] \<or> (\<exists>m. filter is_completion evs = [Completion m False])) \<and>
     (case fst (process_query cfg query session_id w) of
        Inl e \<Rightarrow> snd (process_query cfg query session_id w) =
                   w3\<lparr>trace := trace w3 @ Completion messages True # evs\<rparr>
      | Inr r \<Rightarrow> result_session_id r = sid \<and>
                 snd (process_query cfg query session_id w) =
                   (add_message cfg sid ''assistant'' (answer r) w3)
                     \<lparr>trace := trace w3 @ Completion messages True # evs\<rparr>)"
proof (cases "completions_create cfg messages True")
  case (Inl e)
  from process_query_completion_error[OF p Inl] show ?thesis
    by (intro exI[of _ "[]"]) simp
next
  case rmc: (Inr rm)
  let ?w4 = "w3\<lparr>trace := trace w3 @ [Completion messages True]\<rparr>"
  show ?thesis
  proof (cases "tool_calls rm = None \<or> tool_calls rm = Some []")
    case True
    from process_query_direct[OF p rmc True] show ?thesis
      by (intro exI[of _ "[]"]) (simp add: add_message_trace_update)
  next
    case False
    then obtain tc tcs where tc: "tool_calls rm = Some (tc # tcs)"
      by (cases "tool_calls rm") (auto simp: neq_Nil_conv)
    from tool_round_world[of cfg query messages rm "tc # tcs" ?w4] obtain evs where
      evs: "snd (tool_round cfg query messages rm (tc # tcs) ?w4) = ?w4\<lparr>trace := trace ?w4 @ evs\<rparr>"
        "filter is_completion evs = [] \<or> (\<exists>m. filter is_completion evs = [Completion m False])"
      by blast
    obtain r7 where r7: "tool_round cfg query messages rm (tc # tcs) ?w4 =
        (r7, w3\<lparr>trace := trace w3 @ Completion messages True # evs\<rparr>)"
      using evs(1) by (cases "tool_round cfg query messages rm (tc # tcs) ?w4") simp
    show ?thesis
    proof (cases r7)
      case (Inl e)
      with process_query_tools[OF p rmc tc] r7 evs(2) show ?thesis
        by (intro exI[of _ evs]) simp
    next
      case (Inr fs)
      obtain fa srcs where "fs = (fa, srcs)" by (cases fs)
      with process_query_tools[OF p rmc tc] r7 Inr evs(2) show ?thesis
        by (intro exI[of _ evs]) (simp add: add_message_trace_update)
    qed
  qed
qed

lemma trim_history_room: "int (length msgs) \<le> mh * 2 \<Longrightarrow> trim_history mh msgs = msgs"
  by (simp add: trim_history_def)

lemma trim_history_system:
  "trim_history mh [\<lparr>msg_role = ''system'', msg_content = c, msg_timestamp = t\<rparr>] =
     [\<lparr>msg_role = ''system'', msg_content = c, msg_timestamp = t\<rparr>]"
  by (simp add: trim_history_def py_slice_from_def)

lemma resolve_session_existing:
  assumes "s \<noteq> []" "sessions w s = Some h"
    and "clock cfg (ticks w) - last_access w s \<le> real_of_int (ttl cfg)"
  shows "resolve_session cfg (Some s) w = (s, w\<lparr>ticks := Suc (ticks w)\<rparr>)"
  using assms by (simp add: resolve_session_def session_exists_def is_session_valid_fresh)

lemma new_session:
  assumes "clock cfg (ticks w + 1) - clock cfg (ticks w) \<le> real_of_int (ttl cfg)"
  shows "add_message cfg (uuid4 cfg (uuids w)) ''system'' SYSTEM_PROMPT (snd (create_session cfg w)) =
     w\<lparr>uuids := Suc (uuids w), ticks := ticks w + 4,
       sessions := (sessions w)(uuid4 cfg (uuids w) \<mapsto>
          [\<lparr>msg_role = ''system'', msg_content = SYSTEM_PROMPT,
            msg_timestamp = clock cfg (ticks w + 2)\<rparr>]),
       session_timestamps := (session_timestamps w)(uuid4 cfg (uuids w) \<mapsto> clock cfg (ticks w + 3))\<rparr>"
proof -
  let ?new = "uuid4 cfg (uuids w)"
  let ?w2 = "w\<lparr>uuids := Suc (uuids w), ticks := Suc (ticks w),
        sessions := (sessions w)(?new \<mapsto> []),
        session_timestamps := (session_timestamps w)(?new \<mapsto> clock cfg (ticks w))\<rparr>"
  have c: "snd (create_session cfg w) = ?w2" by (simp add: create_session_eq)
  have s: "sessions ?w2 ?new = Some []" by simp
  have f: "clock cfg (ticks ?w2) - last_access ?w2 ?new \<le> real_of_int (ttl cfg)"
    using assms by (simp add: last_access_def)
  show ?thesis
    unfolding c add_message_fresh[OF s f]
    by (simp add: trim_history_system eval_nat_numeral)
qed

lemma resolve_session_new:
  assumes "session_id = None \<or> session_id = Some [] \<or> (\<exists>s. session_id = Some s \<and> sessions w s = None)"
    and "clock cfg (ticks w + 1) - clock cfg (ticks w) \<le> real_of_int (ttl cfg)"
  shows "resolve_session cfg session_id w =
     (uuid4 cfg (uuids w),
      w\<lparr>uuids := Suc (uuids w), ticks := ticks w + 4,
        sessions := (sessions w)(uuid4 cfg (uuids w) \<mapsto>
          [\<lparr>msg_role = ''system'', msg_content = SYSTEM_PROMPT,
            msg_timestamp = clock cfg (ticks w + 2)\<rparr>]),
        session_timestamps := (session_timestamps w)(uuid4 cfg (uuids w) \<mapsto> clock cfg (ticks w + 3))\<rparr>)"
proof -
  have "(case session_id of None \<Rightarrow> (False, w)
      | Some s \<Rightarrow> if s = [] then (False, w) else session_exists cfg s w) = (False, w)"
    using assms(1) by (auto simp: session_exists_def is_session_valid_absent)
  then have "resolve_session cfg session_id w =
      (uuid4 cfg (uuids w),
       add_message cfg (uuid4 cfg (uuids w)) ''system'' SYSTEM_PROMPT (snd (create_session cfg w)))"
    by (simp add: resolve_session_def create_session_eq)
  with new_session[OF assms(2)] show ?thesis by simp
qed

lemma resolve_session_expired:
  assumes "s \<noteq> []" "sessions w s = Some h"
    and "clock cfg (ticks w) - last_access w s > real_of_int (ttl cfg)"
  shows "resolve_session cfg (Some s) w =
     (uuid4 cfg (uuids w),
      add_message cfg (uuid4 cfg (uuids w)) ''system'' SYSTEM_PROMPT
        (snd (create_session cfg (cleanup_session s (w\<lparr>ticks := Suc (ticks w)\<rparr>)))))"
  using assms
  by (simp add: resolve_session_def session_exists_def is_session_valid_expired create_session_eq
      cleanup_session_def)

lemma prepare_sid: "fst (prepare cfg query session_id w) = fst (resolve_session cfg session_id w)"
  by (simp add: prepare_def split_def Let_def)

lemma prepare_existing:
  assumes "s \<noteq> []" "sessions w s = Some h"
    and c0: "clock cfg (ticks w) - last_access w s \<le> real_of_int (ttl cfg)"
    and c1: "clock cfg (ticks w + 1) - last_access w s \<le> real_of_int (ttl cfg)"
    and c2: "clock cfg (ticks w + 4) - clock cfg (ticks w + 3) \<le> real_of_int (ttl cfg)"
  shows "prepare cfg query (Some s) w =
     (s,
      map to_dict (trim_history (max_history cfg)
         (h @ [\<lparr>msg_role = ''user'', msg_content = query, msg_timestamp = clock cfg (ticks w + 2)\<rparr>])),
      w\<lparr>ticks := ticks w + 5,
        sessions := (sessions w)(s \<mapsto> trim_history (max_history cfg)
         (h @ [\<lparr>msg_role = ''user'', msg_content = query, msg_timestamp = clock cfg (ticks w + 2)\<rparr>])),
        session_timestamps := (session_timestamps w)(s \<mapsto> clock cfg (ticks w + 3))\<rparr>)"
proof -
  let ?w1 = "w\<lparr>ticks := Suc (ticks w)\<rparr>"
  let ?H = "trim_history (max_history cfg)
         (h @ [\<lparr>msg_role = ''user'', msg_content = query, msg_timestamp = clock cfg (ticks w + 2)\<rparr>])"
  let ?w2 = "w\<lparr>ticks := ticks w + 4, sessions := (sessions w)(s \<mapsto> ?H),
        session_timestamps := (session_timestamps w)(s \<mapsto> clock cfg (ticks w + 3))\<rparr>"
  have r: "resolve_session cfg (Some s) w = (s, ?w1)"
    using assms(1,2) c0 by (rule resolve_session_existing)
  have s1: "sessions ?w1 s = Some h" using assms(2) by simp
  have f1: "clock cfg (ticks ?w1) - last_access ?w1 s \<le> real_of_int (ttl cfg)"
    using c1 by (simp add: last_access_def)
  have a: "add_message cfg s ''user'' query ?w1 = ?w2"
    unfolding add_message_fresh[OF s1 f1] by (simp add: eval_nat_numeral)
  have s2: "sessions ?w2 s = Some ?H" by simp
  have f2: "clock cfg (ticks ?w2) - last_access ?w2 s \<le> real_of_int (ttl cfg)"
    using c2 by (simp add: last_access_def)
  have g: "get_history cfg s ?w2 = (map to_dict ?H, ?w2\<lparr>ticks := Suc (ticks ?w2)\<rparr>)"
    using s2 f2 by (rule get_history_fresh)
  show ?thesis
    unfolding prepare_def r Let_def prod.case a g by (simp add: eval_nat_numeral)
qed

lemma process_query_existing:
  assumes "s \<noteq> []" "sessions w s = Some h"
    and c0: "clock cfg (ticks w) - last_access w s \<le> real_of_int (ttl cfg)"
    and c1: "clock cfg (ticks w + 1) - last_access w s \<le> real_of_int (ttl cfg)"
    and c2: "clock cfg (ticks w + 4) - clock cfg (ticks w + 3) \<le> real_of_int (ttl cfg)"
    and c3: "clock cfg (ticks w + 5) - clock cfg (ticks w + 3) \<le> real_of_int (ttl cfg)"
    and run: "process_query cfg query (Some s) w = (res, w')"
  shows "(\<forall>e. res = Inl e \<longrightarrow>
            sessions w' = (sessions w)(s \<mapsto> trim_history (max_history cfg)
              (h @ [\<lparr>msg_role = ''user'', msg_content = query, msg_timestamp = clock cfg (ticks w + 2)\<rparr>]))) \<and>
         (\<forall>r. res = Inr r \<longrightarrow>
            sessions w' = (sessions w)(s \<mapsto> trim_history (max_history cfg)
              (trim_history (max_history cfg)
                 (h @ [\<lparr>msg_role = ''user'', msg_content = query, msg_timestamp = clock cfg (ticks w + 2)\<rparr>])
               @ [\<lparr>msg_role = ''assistant'', msg_content = answer r,
                   msg_timestamp = clock cfg (ticks w + 6)\<rparr>])))"
proof -
  let ?H = "trim_history (max_history cfg)
         (h @ [\<lparr>msg_role = ''user'', msg_content = query, msg_timestamp = clock cfg (ticks w + 2)\<rparr>])"
  let ?w3 = "w\<lparr>ticks := ticks w + 5, sessions := (sessions w)(s \<mapsto> ?H),
        session_timestamps := (session_timestamps w)(s \<mapsto> clock cfg (ticks w + 3))\<rparr>"
  have p: "prepare cfg query (Some s) w = (s, map to_dict ?H, ?w3)"
    using assms(1,2) c0 c1 c2 by (rule prepare_existing)
  from process_query_frame[OF p] obtain evs where
    f0: "case fst (process_query cfg query (Some s) w) of
        Inl e \<Rightarrow> snd (process_query cfg query (Some s) w) =
                   ?w3\<lparr>trace := trace ?w3 @ Completion (map to_dict ?H) True # evs\<rparr>
      | Inr r \<Rightarrow> result_session_id r = s \<and>
                 snd (process_query cfg query (Some s) w) =
                   (add_message cfg s ''assistant'' (answer r) ?w3)
                     \<lparr>trace := trace ?w3 @ Completion (map to_dict ?H) True # evs\<rparr>"
    by blast
  have f: "case res of
        Inl e \<Rightarrow> w' = ?w3\<lparr>trace := trace ?w3 @ Completion (map to_dict ?H) True # evs\<rparr>
      | Inr r \<Rightarrow> result_session_id r = s \<and>
                 w' = (add_message cfg s ''assistant'' (answer r) ?w3)
                     \<lparr>trace := trace ?w3 @ Completion (map to_dict ?H) True # evs\<rparr>"
    using f0 unfolding run fst_conv snd_conv .
  have s3: "sessions ?w3 s = Some ?H" by simp
  have f3: "clock cfg (ticks ?w3) - last_access ?w3 s \<le> real_of_int (ttl cfg)"
    using c3 by (simp add: last_access_def)
  show ?thesis
  proof (cases res)
    case (Inl e)
    with f show ?thesis by simp
  next
    case (Inr r)
    with f have "w' = (add_message cfg s ''assistant'' (answer r) ?w3)
                     \<lparr>trace := trace ?w3 @ Completion (map to_dict ?H) True # evs\<rparr>" by simp
    then have "sessions w' = sessions (add_message cfg s ''assistant'' (answer r) ?w3)" by simp
    also have "\<dots> = (sessions w)(s \<mapsto> trim_history (max_history cfg)
              (?H @ [\<lparr>msg_role = ''assistant'', msg_content = answer r,
                   msg_timestamp = clock cfg (ticks w + 6)\<rparr>]))"
      unfolding add_message_fresh[OF s3 f3] by (simp add: eval_nat_numeral)
    finally show ?thesis using Inr by simp
  qed
qed

lemma process_query_sid:
  assumes "fst (process_query cfg query session_id w) = Inr r"
  shows "result_session_id r = fst (resolve_session cfg session_id w)"
proof -
  obtain sid messages w3 where p: "prepare cfg query session_id w = (sid, messages, w3)"
    by (cases "prepare cfg query session_id w")
  from process_query_frame[OF p] assms have "result_session_id r = sid" by auto
  moreover from p prepare_sid[of cfg query session_id w] have "sid = fst (resolve_session cfg session_id w)"
    by simp
  ultimately show ?thesis by simp
qed

lemma process_query_existing_room:
  assumes "s \<noteq> []" "sessions w s = Some h"
    and c0: "clock cfg (ticks w) - last_access w s \<le> real_of_int (ttl cfg)"
    and c1: "clock cfg (ticks w + 1) - last_access w s \<le> real_of_int (ttl cfg)"
    and c2: "clock cfg (ticks w + 4) - clock cfg (ticks w + 3) \<le> real_of_int (ttl cfg)"
    and c3: "clock cfg (ticks w + 5) - clock cfg (ticks w + 3) \<le> real_of_int (ttl cfg)"
    and run: "process_query cfg query (Some s) w = (res, w')"
    and u: "u = \<lparr>msg_role = ''user'', msg_content = query, msg_timestamp = clock cfg (ticks w + 2)\<rparr>"
  shows "(\<forall>e. res = Inl e \<longrightarrow>
            sessions w' = (sessions w)(s \<mapsto> trim_history (max_history cfg) (h @ [u]))) \<and>
         (\<forall>r. res = Inr r \<longrightarrow>
            sessions w' = (sessions w)(s \<mapsto> trim_history (max_history cfg)
              (trim_history (max_history cfg) (h @ [u]) @
               [\<lparr>msg_role = ''assistant'', msg_content = answer r,
                 msg_timestamp = clock cfg (ticks w + 6)\<rparr>]))) \<and>
         (\<forall>r. res = Inr r \<and> int (length h) + 2 \<le> max_history cfg * 2 \<longrightarrow>
            sessions w' = (sessions w)(s \<mapsto> h @
               [u, \<lparr>msg_role = ''assistant'', msg_content = answer r,
                    msg_timestamp = clock cfg (ticks w + 6)\<rparr>]))"
proof -
  note e = process_query_existing[OF assms(1,2) c0 c1 c2 c3 run, folded u]
  have room: "\<forall>r. res = Inr r \<and> int (length h) + 2 \<le> max_history cfg * 2 \<longrightarrow>
            sessions w' = (sessions w)(s \<mapsto> h @
               [u, \<lparr>msg_role = ''assistant'', msg_content = answer r,
                    msg_timestamp = clock cfg (ticks w + 6)\<rparr>])"
  proof (intro allI impI)
    fix r
    assume a: "res = Inr r \<and> int (length h) + 2 \<le> max_history cfg * 2"
    then have t1: "trim_history (max_history cfg) (h @ [u]) = h @ [u]"
      by (intro trim_history_room) simp
    from a have t2: "trim_history (max_history cfg)
        (h @ [u, \<lparr>msg_role = ''assistant'', msg_content = answer r,
                 msg_timestamp = clock cfg (ticks w + 6)\<rparr>]) =
        h @ [u, \<lparr>msg_role = ''assistant'', msg_content = answer r,
                 msg_timestamp = clock cfg (ticks w + 6)\<rparr>]"
      by (intro trim_history_room) simp
    from e a show "sessions w' = (sessions w)(s \<mapsto> h @
               [u, \<lparr>msg_role = ''assistant'', msg_content = answer r,
                    msg_timestamp = clock cfg (ticks w + 6)\<rparr>])"
      by (simp add: t1 t2)
  qed
  from e room show ?thesis by blast
qed

lemma search_documents_trace_free:
  "fst (search_documents cfg q k (w\<lparr>trace := x\<rparr>)) = fst (search_documents cfg q k w)"
  by (simp add: search_documents_def retrieve_def Let_def split: sum.splits)

lemma tool_messages_trace_free:
  "tool_messages cfg query (w\<lparr>trace := x\<rparr>) tcs = tool_messages cfg query w tcs"
  by (induction tcs) (simp_all add: search_documents_trace_free split: parsed_args.splits)

lemma run_tool_calls_messages:
  "run_tool_calls cfg query tcs messages srcs w = (Inr (m', s'), w') \<Longrightarrow>
   m' = messages @ tool_messages cfg query w tcs"
proof (induction tcs arbitrary: messages srcs w)
  case Nil
  then show ?case by simp
next
  case (Cons tc tcs)
  show ?case
  proof (cases "fn_arguments tc")
    case Malformed
    with Cons.prems show ?thesis by simp
  next
    case (Args q n)
    show ?thesis
    proof (cases "fn_name tc = ''search_documents''")
      case False
      with Args Cons.prems have "run_tool_calls cfg query tcs messages srcs w = (Inr (m', s'), w')"
        by simp
      from Cons.IH[OF this] Args False show ?thesis by simp
    next
      case True
      let ?q = "get_query q query" and ?k = "get_num_results n"
      let ?w1 = "w\<lparr>trace := trace w @ [Search ?q ?k]\<rparr>"
      let ?w2 = "?w1\<lparr>trace := trace ?w1 @ [Search ?q ?k]\<rparr>"
      obtain r1 where r1: "search_documents cfg ?q ?k w = (r1, ?w1)"
        using search_documents_world[of cfg ?q ?k w] by (cases "search_documents cfg ?q ?k w") simp
      obtain r2 where r2: "retrieve cfg ?q ?k ?w1 = (r2, ?w2)"
        using retrieve_world[of cfg ?q ?k ?w1] by (cases "retrieve cfg ?q ?k ?w1") simp
      from Cons.prems Args True r1 obtain txt1 where t1: "r1 = Inr txt1"
        by (cases r1) simp_all
      from Cons.prems Args True r1 r2 t1 obtain docs where d: "r2 = Inr docs"
        by (cases r2) simp_all
      let ?m = "messages @ [ToolResult (tc_id tc) (fn_name tc) txt1]"
      from Cons.prems Args True r1 r2 t1 d
      have "run_tool_calls cfg query tcs ?m (list_set (map r_source docs)) ?w2 = (Inr (m', s'), w')"
        by simp
      from Cons.IH[OF this] have "m' = ?m @ tool_messages cfg query ?w2 tcs" .
      also have "tool_messages cfg query ?w2 tcs = tool_messages cfg query w tcs"
        by (simp only: tool_messages_trace_free)
      finally show ?thesis using Args True r1 t1 by simp
    qed
  qed
qed

lemma tool_round_second_call:
  assumes "tool_round cfg query messages rm tcs w = (Inr (fa, srcs), w')"
  shows "last (trace w') =
           Completion (messages @ AssistantReply rm # tool_messages cfg query w tcs) False \<and>
         (\<exists>rm2. completions_create cfg
                    (messages @ AssistantReply rm # tool_messages cfg query w tcs) False = Inr rm2 \<and>
                fa = reply_content rm2)"
proof -
  let ?m0 = "messages @ [AssistantReply rm]"
  obtain r1 w1 where r1: "run_tool_calls cfg query tcs ?m0 [] w = (r1, w1)"
    by (cases "run_tool_calls cfg query tcs ?m0 [] w")
  from assms r1 obtain m' s' where ok: "r1 = Inr (m', s')"
    by (cases r1) (auto simp: tool_round_def)
  from run_tool_calls_messages[OF r1[unfolded ok]]
  have m': "m' = messages @ AssistantReply rm # tool_messages cfg query w tcs" by simp
  from assms r1 ok obtain rm2 where c: "completions_create cfg m' False = Inr rm2"
    by (cases "completions_create cfg m' False") (auto simp: tool_round_def call_completion_def)
  from assms r1 ok c have "fa = reply_content rm2" "w' = w1\<lparr>trace := trace w1 @ [Completion m' False]\<rparr>"
    by (auto simp: tool_round_def call_completion_def)
  with c m' show ?thesis by auto
qed

lemma process_query_second_call:
  assumes p: "prepare cfg query session_id w = (sid, messages, w3)"
    and c: "completions_create cfg messages True = Inr rm"
    and tc: "tool_calls rm = Some (tc # tcs)"
    and run: "process_query cfg query session_id w = (Inr r, w')"
  shows "last (trace w') =
           Completion (messages @ AssistantReply rm # tool_messages cfg query w3 (tc # tcs)) False \<and>
         (\<exists>rm2. completions_create cfg
                    (messages @ AssistantReply rm # tool_messages cfg query w3 (tc # tcs)) False = Inr rm2 \<and>
                answer r = reply_content rm2)"
proof -
  let ?w4 = "w3\<lparr>trace := trace w3 @ [Completion messages True]\<rparr>"
  obtain r7 w7 where t: "tool_round cfg query messages rm (tc # tcs) ?w4 = (r7, w7)"
    by (cases "tool_round cfg query messages rm (tc # tcs) ?w4")
  from process_query_tools[OF p c tc] run t obtain fa srcs where
    ok: "r7 = Inr (fa, srcs)"
    by (cases r7) auto
  from process_query_tools[OF p c tc] run t ok
  have r: "answer r = fa" and w': "w' = add_message cfg sid ''assistant'' fa w7"
    by auto
  from tool_round_second_call[OF t[unfolded ok]]
  have "last (trace w7) =
           Completion (messages @ AssistantReply rm # tool_messages cfg query ?w4 (tc # tcs)) False \<and>
         (\<exists>rm2. completions_create cfg
                    (messages @ AssistantReply rm # tool_messages cfg query ?w4 (tc # tcs)) False = Inr rm2 \<and>
                fa = reply_content rm2)" .
  then show ?thesis
    unfolding tool_messages_trace_free r w' trace_add_message .
qed

lemma trim_history_system_first:
  assumes "msg_role m = ''system''"
  shows "\<exists>rest. trim_history mh (m # L) = m # rest"
  using assms by (simp add: trim_history_def Let_def)

lemma trim_history_two:
  assumes "0 \<le> mh" "msg_role s = ''system''" "msg_role u \<noteq> ''system''"
  shows "trim_history mh [s, u] = [s, u]"
proof -
  consider "mh = 0" | "1 \<le> mh" using assms(1) by linarith
  then show ?thesis
  proof cases
    case 1
    with assms show ?thesis
      by (simp add: trim_history_def Let_def py_slice_from_def py_clamp_def)
  next
    case 2
    then show ?thesis by (simp add: trim_history_def)
  qed
qed

lemma trim_history_three:
  assumes "0 \<le> mh" "msg_role s = ''system''" "msg_role u \<noteq> ''system''" "msg_role a \<noteq> ''system''"
  shows "trim_history mh [s, u, a] = [s, u, a]"
proof -
  consider "mh = 0" | "mh = 1" | "2 \<le> mh" using assms(1) by linarith
  then show ?thesis
  proof cases
    case 1
    with assms show ?thesis
      by (simp add: trim_history_def Let_def py_slice_from_def py_clamp_def)
  next
    case 2
    with assms show ?thesis
      by (simp add: trim_history_def Let_def py_slice_from_def py_clamp_def)
  next
    case 3
    then show ?thesis by (simp add: trim_history_def)
  qed
qed

lemma prepare_new:
  assumes absent: "session_id = None \<or> session_id = Some [] \<or>
      (\<exists>s. session_id = Some s \<and> sessions w s = None)"
    and g1: "clock cfg (ticks w + 1) - clock cfg (ticks w) \<le> real_of_int (ttl cfg)"
    and g2: "clock cfg (ticks w + 4) - clock cfg (ticks w + 3) \<le> real_of_int (ttl cfg)"
    and g3: "clock cfg (ticks w + 7) - clock cfg (ticks w + 6) \<le> real_of_int (ttl cfg)"
    and H: "H = trim_history (max_history cfg)
        [\<lparr>msg_role = ''system'', msg_content = SYSTEM_PROMPT, msg_timestamp = clock cfg (ticks w + 2)\<rparr>,
         \<lparr>msg_role = ''user'', msg_content = query, msg_timestamp = clock cfg (ticks w + 5)\<rparr>]"
  shows "prepare cfg query session_id w =
     (uuid4 cfg (uuids w), map to_dict H,
      w\<lparr>uuids := Suc (uuids w), ticks := ticks w + 8,
        sessions := (sessions w)(uuid4 cfg (uuids w) \<mapsto> H),
        session_timestamps := (session_timestamps w)(uuid4 cfg (uuids w) \<mapsto> clock cfg (ticks w + 6))\<rparr>)"
proof -
  let ?new = "uuid4 cfg (uuids w)"
  let ?sys = "\<lparr>msg_role = ''system'', msg_content = SYSTEM_PROMPT, msg_timestamp = clock cfg (ticks w + 2)\<rparr>"
  let ?w1 = "w\<lparr>uuids := Suc (uuids w), ticks := ticks w + 4,
        sessions := (sessions w)(?new \<mapsto> [?sys]),
        session_timestamps := (session_timestamps w)(?new \<mapsto> clock cfg (ticks w + 3))\<rparr>"
  let ?w2 = "w\<lparr>uuids := Suc (uuids w), ticks := ticks w + 7,
        sessions := (sessions w)(?new \<mapsto> H),
        session_timestamps := (session_timestamps w)(?new \<mapsto> clock cfg (ticks w + 6))\<rparr>"
  have r: "resolve_session cfg session_id w = (?new, ?w1)"
    by (rule resolve_session_new[OF absent g1])
  have s1: "sessions ?w1 ?new = Some [?sys]" by simp
  have f1: "clock cfg (ticks ?w1) - last_access ?w1 ?new \<le> real_of_int (ttl cfg)"
    using g2 by (simp add: last_access_def)
  have a: "add_message cfg ?new ''user'' query ?w1 = ?w2"
    unfolding add_message_fresh[OF s1 f1] H by (simp add: eval_nat_numeral)
  have s2: "sessions ?w2 ?new = Some H" by simp
  have f2: "clock cfg (ticks ?w2) - last_access ?w2 ?new \<le> real_of_int (ttl cfg)"
    using g3 by (simp add: last_access_def)
  have g: "get_history cfg ?new ?w2 = (map to_dict H, ?w2\<lparr>ticks := Suc (ticks ?w2)\<rparr>)"
    using s2 f2 by (rule get_history_fresh)
  show ?thesis
    unfolding prepare_def r Let_def prod.case a g by (simp add: eval_nat_numeral)
qed

lemma process_query_new:
  assumes absent: "session_id = None \<or> session_id = Some [] \<or>
      (\<exists>s. session_id = Some s \<and> sessions w s = None)"
    and g1: "clock cfg (ticks w + 1) - clock cfg (ticks w) \<le> real_of_int (ttl cfg)"
    and g2: "clock cfg (ticks w + 4) - clock cfg (ticks w + 3) \<le> real_of_int (ttl cfg)"
    and g3: "clock cfg (ticks w + 7) - clock cfg (ticks w + 6) \<le> real_of_int (ttl cfg)"
    and g4: "clock cfg (ticks w + 8) - clock cfg (ticks w + 6) \<le> real_of_int (ttl cfg)"
    and H: "H = trim_history (max_history cfg)
        [\<lparr>msg_role = ''system'', msg_content = SYSTEM_PROMPT, msg_timestamp = clock cfg (ticks w + 2)\<rparr>,
         \<lparr>msg_role = ''user'', msg_content = query, msg_timestamp = clock cfg (ticks w + 5)\<rparr>]"
    and run: "process_query cfg query session_id w = (res, w')"
  shows "(\<forall>e. res = Inl e \<longrightarrow> sessions w' = (sessions w)(uuid4 cfg (uuids w) \<mapsto> H)) \<and>
         (\<forall>r. res = Inr r \<longrightarrow> result_session_id r = uuid4 cfg (uuids w) \<and>
            sessions w' = (sessions w)(uuid4 cfg (uuids w) \<mapsto> trim_history (max_history cfg)
              (H @ [\<lparr>msg_role = ''assistant'', msg_content = answer r,
                     msg_timestamp = clock cfg (ticks w + 9)\<rparr>])))"
proof -
  let ?new = "uuid4 cfg (uuids w)"
  let ?w3 = "w\<lparr>uuids := Suc (uuids w), ticks := ticks w + 8,
        sessions := (sessions w)(?new \<mapsto> H),
        session_timestamps := (session_timestamps w)(?new \<mapsto> clock cfg (ticks w + 6))\<rparr>"
  have p: "prepare cfg query session_id w = (?new, map to_dict H, ?w3)"
    by (rule prepare_new[OF absent g1 g2 g3 H])
  from process_query_frame[OF p] obtain evs where
    f0: "case fst (process_query cfg query session_id w) of
        Inl e \<Rightarrow> snd (process_query cfg query session_id w) =
                   ?w3\<lparr>trace := trace ?w3 @ Completion (map to_dict H) True # evs\<rparr>
      | Inr r \<Rightarrow> result_session_id r = ?new \<and>
                 snd (process_query cfg query session_id w) =
                   (add_message cfg ?new ''assistant'' (answer r) ?w3)
                     \<lparr>trace := trace ?w3 @ Completion (map to_dict H) True # evs\<rparr>"
    by blast
  have f: "case res of
        Inl e \<Rightarrow> w' = ?w3\<lparr>trace := trace ?w3 @ Completion (map to_dict H) True # evs\<rparr>
      | Inr r \<Rightarrow> result_session_id r = ?new \<and>
                 w' = (add_message cfg ?new ''assistant'' (answer r) ?w3)
                     \<lparr>trace := trace ?w3 @ Completion (map to_dict H) True # evs\<rparr>"
    using f0 unfolding run fst_conv snd_conv .
  have s3: "sessions ?w3 ?new = Some H" by simp
  have f3: "clock cfg (ticks ?w3) - last_access ?w3 ?new \<le> real_of_int (ttl cfg)"
    using g4 by (simp add: last_access_def)
  show ?thesis
  proof (cases res)
    case (Inl e)
    with f show ?thesis by simp
  next
    case (Inr r)
    with f have id: "result_session_id r = ?new"
      and "w' = (add_message cfg ?new ''assistant'' (answer r) ?w3)
                     \<lparr>trace := trace ?w3 @ Completion (map to_dict H) True # evs\<rparr>" by simp_all
    then have "sessions w' = sessions (add_message cfg ?new ''assistant'' (answer r) ?w3)" by simp
    also have "\<dots> = (sessions w)(?new \<mapsto> trim_history (max_history cfg)
              (H @ [\<lparr>msg_role = ''assistant'', msg_content = answer r,
                   msg_timestamp = clock cfg (ticks w + 9)\<rparr>]))"
      unfolding add_message_fresh[OF s3 f3] by (simp add: eval_nat_numeral)
    finally show ?thesis using Inr id by simp
  qed
qed

lemma process_query_expired_same:
  assumes "sid \<noteq> []" "sessions w sid = Some h"
    and "clock cfg (ticks w) - last_access w sid > real_of_int (ttl cfg)"
  shows "process_query cfg query (Some sid) w =
         process_query cfg query (Some sid) (snd (session_exists cfg sid w))"
proof -
  let ?w1 = "cleanup_session sid (w\<lparr>ticks := Suc (ticks w)\<rparr>)"
  have x: "snd (session_exists cfg sid w) = ?w1"
    unfolding session_exists_def by (simp add: is_session_valid_expired[OF assms(2,3)])
  have "sessions ?w1 sid = None" by (simp add: cleanup_session_def)
  then have "resolve_session cfg (Some sid) ?w1 =
      (uuid4 cfg (uuids ?w1),
       add_message cfg (uuid4 cfg (uuids ?w1)) ''system'' SYSTEM_PROMPT (snd (create_session cfg ?w1)))"
    using assms(1)
    by (simp add: resolve_session_def session_exists_def is_session_valid_absent create_session_eq)
  moreover have "uuids ?w1 = uuids w" by (simp add: cleanup_session_def)
  ultimately have "resolve_session cfg (Some sid) ?w1 = resolve_session cfg (Some sid) w"
    by (simp add: resolve_session_expired[OF assms])
  then show ?thesis
    unfolding x by (simp add: process_query_def prepare_def)
qed

section \<open>The toy run, evaluated\<close>

lemma char_of_48: "char_of (48::nat) = CHR ''0''"
proof -
  have "of_char (CHR ''0'') = (48::nat)" by simp
  then show ?thesis by (metis char_of_char)
qed

lemma toy_world_session_reached:
  "resolve_session toy_config None toy_world = (''s0'', toy_world_session)"
proof -
  have g: "clock toy_config (ticks toy_world + 1) - clock toy_config (ticks toy_world)
      \<le> real_of_int (ttl toy_config)"
    by (simp add: toy_config_def toy_world_def)
  have "resolve_session toy_config None toy_world =
     (uuid4 toy_config (uuids toy_world),
      toy_world\<lparr>uuids := Suc (uuids toy_world), ticks := ticks toy_world + 4,
        sessions := (sessions toy_world)(uuid4 toy_config (uuids toy_world) \<mapsto>
          [\<lparr>msg_role = ''system'', msg_content = SYSTEM_PROMPT,
            msg_timestamp = clock toy_config (ticks toy_world + 2)\<rparr>]),
        session_timestamps := (session_timestamps toy_world)(uuid4 toy_config (uuids toy_world) \<mapsto>
           clock toy_config (ticks toy_world + 3))\<rparr>)"
    using g by (intro resolve_session_new) simp_all
  then show ?thesis
    by (simp add: toy_config_def toy_world_def toy_world_session_def toy_system_message_def char_of_48)
qed

lemma toy_search_ab:
  "search toy_embedder 3 toy_store ''ab'' (Some 1) = Inr [(mk_doc ''ab'' ''a.txt'', 0)]"
  by (simp add: toy_store_eq search_def k_or_default_def toy_embedder_def toy_vector_def
      faiss_search_def sqdist_def py_index_def Let_def upt_rec mk_doc_def)

lemma toy_search_ba:
  "search toy_embedder 3 toy_store ''ba'' (Some 1) = Inr [(mk_doc ''ba'' ''b.txt'', 0)]"
  by (simp add: toy_store_eq search_def k_or_default_def toy_embedder_def toy_vector_def
      faiss_search_def sqdist_def py_index_def Let_def upt_rec mk_doc_def)

lemma toy_retrieve_ab:
  "vstore w = toy_store \<Longrightarrow>
   retrieve toy_config ''ab'' (Some 1) w =
     (Inr [to_retrieved (mk_doc ''ab'' ''a.txt'', 0)], w\<lparr>trace := trace w @ [Search ''ab'' (Some 1)]\<rparr>)"
  by (simp add: retrieve_def Let_def toy_config_def toy_search_ab)

lemma toy_retrieve_ba:
  "vstore w = toy_store \<Longrightarrow>
   retrieve toy_config ''ba'' (Some 1) w =
     (Inr [to_retrieved (mk_doc ''ba'' ''b.txt'', 0)], w\<lparr>trace := trace w @ [Search ''ba'' (Some 1)]\<rparr>)"
  by (simp add: retrieve_def Let_def toy_config_def toy_search_ba)

lemma toy_search_documents_ab:
  "vstore w = toy_store \<Longrightarrow>
   search_documents toy_config ''ab'' (Some 1) w =
     (Inr (format_result 1 (to_retrieved (mk_doc ''ab'' ''a.txt'', 0))),
      w\<lparr>trace := trace w @ [Search ''ab'' (Some 1)]\<rparr>)"
  by (simp add: search_documents_def toy_retrieve_ab)

lemma toy_search_documents_ba:
  "vstore w = toy_store \<Longrightarrow>
   search_documents toy_config ''ba'' (Some 1) w =
     (Inr (format_result 1 (to_retrieved (mk_doc ''ba'' ''b.txt'', 0))),
      w\<lparr>trace := trace w @ [Search ''ba'' (Some 1)]\<rparr>)"
  by (simp add: search_documents_def toy_retrieve_ba)

lemma toy_source_ab: "r_source (to_retrieved (mk_doc ''ab'' ''a.txt'', 0)) = MStr ''a.txt''"
  by (simp add: to_retrieved_def metadata_get_def mk_doc_def)

lemma toy_source_ba: "r_source (to_retrieved (mk_doc ''ba'' ''b.txt'', 0)) = MStr ''b.txt''"
  by (simp add: to_retrieved_def metadata_get_def mk_doc_def)

lemma toy_run_tool_calls:
  assumes "vstore w = toy_store"
  shows "run_tool_calls toy_config query toy_calls messages [] w =
     (Inr (messages @
            [ToolResult ''call-1'' ''search_documents''
               (format_result 1 (to_retrieved (mk_doc ''ab'' ''a.txt'', 0))),
             ToolResult ''call-2'' ''search_documents''
               (format_result 1 (to_retrieved (mk_doc ''ba'' ''b.txt'', 0)))],
           [MStr ''b.txt'']),
      w\<lparr>trace := trace w @ [Search ''ab'' (Some 1), Search ''ab'' (Some 1),
                              Search ''ba'' (Some 1), Search ''ba'' (Some 1)]\<rparr>)"
  using assms
  by (simp add: toy_calls_def get_query_def get_num_results_def toy_search_documents_ab
      toy_search_documents_ba toy_retrieve_ab toy_retrieve_ba toy_source_ab toy_source_ba
      list_set_def)

lemma toy_session_checks:
  "sessions toy_world_session ''s0'' = Some [toy_system_message]"
  "clock toy_config (ticks toy_world_session) - last_access toy_world_session ''s0''
     \<le> real_of_int (ttl toy_config)"
  "clock toy_config (ticks toy_world_session + 1) - last_access toy_world_session ''s0''
     \<le> real_of_int (ttl toy_config)"
  "clock toy_config (ticks toy_world_session + 4) - clock toy_config (ticks toy_world_session + 3)
     \<le> real_of_int (ttl toy_config)"
  "clock toy_config (ticks toy_world_session + 5) - clock toy_config (ticks toy_world_session + 3)
     \<le> real_of_int (ttl toy_config)"
  by (simp_all add: toy_world_session_def toy_config_def last_access_def)

lemma toy_prepare:
  "prepare toy_config query (Some ''s0'') toy_world_session =
     (''s0'', [Dict ''system'' SYSTEM_PROMPT, Dict ''user'' query], toy_world_asked query)"
proof -
  have ne: "''s0'' \<noteq> []" by simp
  have t: "trim_history (max_history toy_config)
      ([toy_system_message] @
       [\<lparr>msg_role = ''user'', msg_content = query,
         msg_timestamp = clock toy_config (ticks toy_world_session + 2)\<rparr>]) =
      [toy_system_message, \<lparr>msg_role = ''user'', msg_content = query, msg_timestamp = 6\<rparr>]"
    by (simp add: trim_history_room toy_config_def toy_world_session_def)
  show ?thesis
    unfolding prepare_existing[OF ne toy_session_checks(1-4)] t
    by (simp add: toy_world_asked_def to_dict_def toy_system_message_def toy_world_session_def
        toy_config_def)
qed

lemma toy_first_reply_find:
  "completions_create toy_config [Dict ''system'' SYSTEM_PROMPT, Dict ''user'' ''find''] True =
     Inr \<lparr>reply_content = [], tool_calls = Some toy_calls\<rparr>"
  by (simp add: toy_config_def toy_completions_def)

lemma toy_first_reply_hi:
  "completions_create toy_config [Dict ''system'' SYSTEM_PROMPT, Dict ''user'' ''hi''] True =
     Inr \<lparr>reply_content = ''hello'', tool_calls = None\<rparr>"
  by (simp add: toy_config_def toy_completions_def)

lemma toy_second_reply:
  "completions_create toy_config messages False = Inr \<lparr>reply_content = ''done'', tool_calls = None\<rparr>"
  by (simp add: toy_config_def toy_completions_def)

lemma toy_process_find:
  "fst (process_query toy_config ''find'' (Some ''s0'') toy_world_session) =
     Inr \<lparr>answer = ''done'', sources = [MStr ''b.txt''], result_session_id = ''s0''\<rparr> \<and>
   filter is_search (trace (snd (process_query toy_config ''find'' (Some ''s0'') toy_world_session))) =
     [Search ''ab'' (Some 1), Search ''ab'' (Some 1), Search ''ba'' (Some 1), Search ''ba'' (Some 1)]"
proof -
  let ?m = "[Dict ''system'' SYSTEM_PROMPT, Dict ''user'' ''find'']"
  let ?rm = "\<lparr>reply_content = [], tool_calls = Some toy_calls\<rparr>"
  let ?w4 = "(toy_world_asked ''find'')\<lparr>trace := trace (toy_world_asked ''find'') @ [Completion ?m True]\<rparr>"
  have tc: "tool_calls ?rm = Some (hd toy_calls # tl toy_calls)"
    by (simp add: toy_calls_def)
  have v: "vstore ?w4 = toy_store"
    by (simp add: toy_world_asked_def toy_world_session_def)
  have tr: "trace (toy_world_asked ''find'') = []"
    by (simp add: toy_world_asked_def toy_world_session_def)
  have l: "hd toy_calls # tl toy_calls = toy_calls" by (simp add: toy_calls_def)
  show ?thesis
    unfolding process_query_tools[OF toy_prepare toy_first_reply_find tc] l
      tool_round_def toy_run_tool_calls[OF v]
    by (simp add: call_completion_def toy_second_reply tr)
qed

lemma toy_process_hi:
  "process_query toy_config ''hi'' (Some ''s0'') toy_world_session =
     (Inr \<lparr>answer = ''hello'', sources = [], result_session_id = ''s0''\<rparr>,
      add_message toy_config ''s0'' ''assistant'' ''hello''
        ((toy_world_asked ''hi'')\<lparr>trace := trace (toy_world_asked ''hi'') @
            [Completion [Dict ''system'' SYSTEM_PROMPT, Dict ''user'' ''hi''] True]\<rparr>))"
  using process_query_direct[OF toy_prepare toy_first_reply_hi] by simp

lemma char_of_49: "char_of (49::nat) = CHR ''1''"
proof -
  have "of_char (CHR ''1'') = (49::nat)" by simp
  then show ?thesis by (metis char_of_char)
qed

lemma toy_tool_messages:
  assumes "vstore w = toy_store"
  shows "tool_messages toy_config query w toy_calls =
     [ToolResult ''call-1'' ''search_documents''
        (format_result 1 (to_retrieved (mk_doc ''ab'' ''a.txt'', 0))),
      ToolResult ''call-2'' ''search_documents''
        (format_result 1 (to_retrieved (mk_doc ''ba'' ''b.txt'', 0)))]"
  using assms
  by (simp add: toy_calls_def get_query_def get_num_results_def toy_search_documents_ab
      toy_search_documents_ba)

lemma slow_prepare:
  "prepare slow_config ''hi'' (Some ''s0'') toy_world_session =
     (''s0'', [Dict ''system'' SYSTEM_PROMPT, Dict ''user'' ''hi''],
      toy_world_session\<lparr>ticks := 9,
        sessions := [''s0'' \<mapsto> [toy_system_message,
           \<lparr>msg_role = ''user'', msg_content = ''hi'', msg_timestamp = 3\<rparr>]],
        session_timestamps := [''s0'' \<mapsto> 3]\<rparr>)"
proof -
  have ne: "''s0'' \<noteq> []" by simp
  have s: "sessions toy_world_session ''s0'' = Some [toy_system_message]"
    by (simp add: toy_world_session_def)
  have c0: "clock slow_config (ticks toy_world_session) - last_access toy_world_session ''s0''
      \<le> real_of_int (ttl slow_config)"
    and c1: "clock slow_config (ticks toy_world_session + 1) - last_access toy_world_session ''s0''
      \<le> real_of_int (ttl slow_config)"
    and c2: "clock slow_config (ticks toy_world_session + 4) -
        clock slow_config (ticks toy_world_session + 3) \<le> real_of_int (ttl slow_config)"
    by (simp_all add: slow_config_def toy_config_def toy_world_session_def last_access_def)
  have t: "trim_history (max_history slow_config)
      ([toy_system_message] @
       [\<lparr>msg_role = ''user'', msg_content = ''hi'',
         msg_timestamp = clock slow_config (ticks toy_world_session + 2)\<rparr>]) =
      [toy_system_message, \<lparr>msg_role = ''user'', msg_content = ''hi'', msg_timestamp = 3\<rparr>]"
    by (simp add: trim_history_room slow_config_def toy_config_def toy_world_session_def)
  show ?thesis
    unfolding prepare_existing[OF ne s c0 c1 c2] t
    by (simp add: to_dict_def toy_system_message_def toy_world_session_def
        slow_config_def toy_config_def)
qed

section \<open>Claims about the vector store\<close>

text \<open>
  C10. Adding an empty sequence of documents is a complete no-op: the document list, the
  underlying index, the dimension and the initialized flag are all unchanged and nothing
  is raised; in particular an uninitialized store stays uninitialized.
\<close>

theorem add_documents_empty_noop:
  "add_documents E [] st = (None, st)"
  by (simp add: add_documents_def)

text \<open>
  C3. After a first batch has fixed the dimension and after any further sequence of
  \<^verbatim>\<open>add_documents\<close> calls, adding a batch whose vectors have another length fails with
  \<open>DimensionMismatch\<close>, and the store (documents, index rows, dimension, initialized flag)
  is exactly what it was before the call.
\<close>

theorem add_documents_rejects_other_dimension:
  assumes "first \<noteq> []"
    and "generate_embeddings_batch E (map content first) = Inr (r0 # rs0)"
    and "list_all (\<lambda>v. length v = length r0) rs0"
    and "st = add_all E batches (snd (add_documents E first init_store))"
    and "docs \<noteq> []"
    and "generate_embeddings_batch E (map content docs) = Inr (r # rs)"
    and "list_all (\<lambda>v. length v = length r) rs"
    and "length r \<noteq> length r0"
  shows "add_documents E docs st = (Some DimensionMismatch, st)"
proof -
  have "index (snd (add_documents E first init_store)) = Some \<lparr>idx_d = length r0, idx_xb = r0 # rs0\<rparr>"
    using assms(1-3) by (simp add: add_documents_first init_store_def)
  from add_all_keeps_d[OF this, of E batches] assms(4)
  obtain ix where "index st = Some ix" "idx_d ix = length r0" by auto
  with assms(5-8) show ?thesis by (simp add: add_documents_mismatch)
qed

theorem add_documents_rejects_other_dimension_witness:
  "add_documents toy_embedder [mk_doc ''abc'' ''c.txt'']
     (add_all toy_embedder [[mk_doc ''bb'' ''d.txt'']] toy_store) =
   (Some DimensionMismatch, add_all toy_embedder [[mk_doc ''bb'' ''d.txt'']] toy_store)"
proof -
  let ?first = "[mk_doc ''ab'' ''a.txt'', mk_doc ''ba'' ''b.txt'']"
  let ?docs = "[mk_doc ''abc'' ''c.txt'']"
  have h1: "?first \<noteq> []" by simp
  have h2: "generate_embeddings_batch toy_embedder (map content ?first) = Inr ([1, 0] # [[0, 1]])"
    by (simp add: toy_embedder_def toy_vector_def mk_doc_def)
  have h3: "list_all (\<lambda>v. length v = length [1, 0 :: real]) [[0, 1]]" by simp
  have h4: "add_all toy_embedder [[mk_doc ''bb'' ''d.txt'']] toy_store =
      add_all toy_embedder [[mk_doc ''bb'' ''d.txt'']] (snd (add_documents toy_embedder ?first init_store))"
    by (simp only: toy_store_def)
  have h5: "?docs \<noteq> []" by simp
  have h6: "generate_embeddings_batch toy_embedder (map content ?docs) = Inr ([1, 0, 0] # [])"
    by (simp add: toy_embedder_def toy_vector_def mk_doc_def)
  have h7: "list_all (\<lambda>v. length v = length [1, 0, 0 :: real]) []" by simp
  have h8: "length [1, 0, 0 :: real] \<noteq> length [1, 0 :: real]" by simp
  show ?thesis
    by (rule add_documents_rejects_other_dimension [OF h1 h2 h3 h4 h5 h6 h7 h8])
qed

text \<open>
  C9. The dimension in force is the index's: \<^verbatim>\<open>add_documents\<close> fixes it when it finds
  no index (\<^verbatim>\<open>self.index is None\<close>).  After \<^verbatim>\<open>clear\<close> on any store, the store holds zero
  documents, has no index (so no dimension is in force) and is not initialized, and the
  next add of a non-empty batch fixes a fresh dimension from that batch: the store then
  holds exactly that batch, in an index of the batch's vector length.
\<close>

theorem clear_then_add_fixes_fresh_dimension:
  assumes "docs \<noteq> []"
    and "generate_embeddings_batch E (map content docs) = Inr (r # rs)"
    and "list_all (\<lambda>v. length v = length r) rs"
  shows "index (clear st) = None \<and> documents (clear st) = [] \<and> \<not> is_initialized (clear st) \<and>
         add_documents E docs (clear st) =
           (None, \<lparr>index = Some \<lparr>idx_d = length r, idx_xb = r # rs\<rparr>, documents = docs,
                   dimension = Some (length r), is_initialized = True\<rparr>)"
proof -
  have c: "index (clear st) = None" "documents (clear st) = []" "\<not> is_initialized (clear st)"
    by (simp_all add: clear_def)
  from add_documents_first[OF c(1) assms] c(2)
  have "add_documents E docs (clear st) =
           (None, \<lparr>index = Some \<lparr>idx_d = length r, idx_xb = r # rs\<rparr>, documents = docs,
                   dimension = Some (length r), is_initialized = True\<rparr>)"
    by (simp add: clear_def)
  with c show ?thesis by simp
qed

theorem clear_then_add_fixes_fresh_dimension_witness:
  "index (clear toy_store) = None \<and> documents (clear toy_store) = [] \<and>
   \<not> is_initialized (clear toy_store) \<and>
   add_documents toy_embedder [mk_doc ''abc'' ''c.txt''] (clear toy_store) =
     (None, \<lparr>index = Some \<lparr>idx_d = 3, idx_xb = [[1, 0, 0]]\<rparr>,
             documents = [mk_doc ''abc'' ''c.txt''],
             dimension = Some 3, is_initialized = True\<rparr>)"
proof -
  let ?docs = "[mk_doc ''abc'' ''c.txt'']"
  have h1: "?docs \<noteq> []" by simp
  have h2: "generate_embeddings_batch toy_embedder (map content ?docs) = Inr ([1, 0, 0] # [])"
    by (simp add: toy_embedder_def toy_vector_def mk_doc_def)
  have h3: "list_all (\<lambda>v. length v = length [1, 0, 0 :: real]) []" by simp
  from clear_then_add_fixes_fresh_dimension [OF h1 h2 h3, of toy_store]
  show ?thesis by simp
qed

text \<open>
  C4, as stated, fails at \<open>k = 0\<close>: \<^verbatim>\<open>k or settings.top_k_results\<close> replaces a requested
  \<open>0\<close> by the configured default, so with the default 3 a search for zero results on a
  store of two chunks returns both.
\<close>

theorem search_k_zero_counterexample:
  "search toy_embedder 3 toy_store ''bb'' (Some 0) =
     Inr [(mk_doc ''ab'' ''a.txt'', 1), (mk_doc ''ba'' ''b.txt'', 1)]"
  by (simp add: toy_store_eq search_def k_or_default_def toy_embedder_def toy_vector_def
      faiss_search_def sqdist_def py_index_def Let_def upt_rec mk_doc_def)

text \<open>
  C4 (amended). Let \<open>k'\<close> be the requested \<open>k\<close>, or \<^verbatim>\<open>settings.top_k_results\<close> when the
  requested \<open>k\<close> is absent or \<open>0\<close>, and let \<open>k' \<ge> 1\<close>.  For every state of the store and
  every query whose embedding has the index's dimension, \<^verbatim>\<open>search\<close> returns a sequence
  of (chunk, distance) pairs of length \<open>min k' stored_count\<close> (so never more than \<open>k'\<close>),
  sorted by non-decreasing distance, each pair a stored chunk with the squared Euclidean
  distance of its row to the query; if the store holds zero entries the result is the
  empty sequence, not an error.
\<close>

theorem search_results:
  assumes "store_ok st"
    and "generate_embedding E query = Inr qv"
    and "\<forall>ix. index st = Some ix \<longrightarrow> length qv = idx_d ix"
    and "1 \<le> k_or_default k top_k"
  shows "\<exists>rs. search E top_k st query k = Inr rs \<and>
           length rs = min (nat (k_or_default k top_k)) (length (documents st)) \<and>
           sorted (map snd rs) \<and>
           (\<forall>(doc, dist) \<in> set rs. \<exists>ix i. index st = Some ix \<and> i < length (documents st) \<and>
               doc = documents st ! i \<and> dist = sqdist qv (idx_xb ix ! i)) \<and>
           (documents st = [] \<longrightarrow> rs = [])"
proof (cases "index st")
  case None
  with assms(1) have "documents st = []" by (simp add: store_ok_def)
  with None show ?thesis by (simp add: search_uninitialized)
next
  case (Some ix)
  let ?k2 = "min (k_or_default k top_k) (int (length (documents st)))"
  let ?top = "take (nat ?k2) (ranked_rows ix qv)"
  let ?rs = "map (\<lambda>(i, dist). (documents st ! nat i, dist)) ?top"
  from assms(1) Some have ok: "documents st \<noteq> []" "length (idx_xb ix) = length (documents st)"
    by (simp_all add: store_ok_def)
  from assms(3) Some have "length qv = idx_d ix" by simp
  from search_ranked[OF assms(1) Some assms(2) this assms(4)]
  have eq: "search E top_k st query k = Inr ?rs" .
  have len: "length ?rs = min (nat (k_or_default k top_k)) (length (documents st))"
  proof -
    have "length (ranked_rows ix qv) = length (documents st)"
      using ok(2) by (simp add: ranked_rows_def)
    then have "length ?rs = min (length (documents st)) (nat ?k2)" by simp
    also have "nat ?k2 = min (nat (k_or_default k top_k)) (length (documents st))"
      using assms(4) by linarith
    finally show ?thesis by simp
  qed
  have "map snd ?rs = take (nat ?k2) (map snd (ranked_rows ix qv))"
    by (simp add: take_map split_def comp_def)
  then have srt: "sorted (map snd ?rs)"
    using ranked_rows_sorted[of ix qv] by (simp add: sorted_wrt_take)
  have mem: "\<forall>(doc, dist) \<in> set ?rs. \<exists>ix i. index st = Some ix \<and> i < length (documents st) \<and>
               doc = documents st ! i \<and> dist = sqdist qv (idx_xb ix ! i)"
  proof -
    have "set ?top \<subseteq> set (ranked_rows ix qv)" by (rule set_take_subset)
    then show ?thesis using ok(2) Some by (fastforce simp: ranked_rows_set)
  qed
  from eq len srt mem ok(1) show ?thesis by simp
qed

theorem search_results_witness:
  "store_ok toy_store \<and> 1 \<le> k_or_default (Some 1) 3 \<and>
   (\<exists>rs. search toy_embedder 3 toy_store ''ab'' (Some 1) = Inr rs \<and> length rs = 1 \<and>
      sorted (map snd rs) \<and>
      (\<forall>(doc, dist) \<in> set rs. \<exists>ix i. index toy_store = Some ix \<and> i < 2 \<and>
          doc = documents toy_store ! i \<and> dist = sqdist [1, 0] (idx_xb ix ! i)))"
proof -
  have h1: "store_ok toy_store" by (rule store_ok_toy_store)
  have h2: "generate_embedding toy_embedder ''ab'' = Inr [1, 0]"
    by (simp add: toy_embedder_def toy_vector_def)
  have h3: "\<forall>ix. index toy_store = Some ix \<longrightarrow> length [1, 0 :: real] = idx_d ix"
    by (simp add: toy_store_eq)
  have h4: "1 \<le> k_or_default (Some 1) 3" by (simp add: k_or_default_def)
  have n: "length (documents toy_store) = 2" by (simp add: toy_store_eq)
  have k: "nat (k_or_default (Some 1) 3) = 1" by (simp add: k_or_default_def)
  have m: "min (1::nat) 2 = 1" by simp
  from search_results [OF h1 h2 h3 h4] h1 h4 show ?thesis
    unfolding n k m by blast
qed

section \<open>Properties of the text splitter\<close>

text \<open>
  An iteration that leaves \<open>start\<close> where it was, inside the text, is repeated forever:
  the loop does not return from such a \<open>start\<close>.
\<close>

lemma split_loop_stuck:
  assumes "split_loop chunk_size chunk_overlap text start chunks = Some y"
  shows "\<not> (start < int (length text) \<and> next_start chunk_size chunk_overlap text start = start)"
proof (rule split_loop.raw_induct
    [where P = "\<lambda>cs ov tx st cks y. \<not> (st < int (length tx) \<and> next_start cs ov tx st = st)",
      OF _ assms])
  fix f cs ov tx st cks y
  assume IH: "\<And>cs ov tx st cks y. f cs ov tx st cks = Some y \<Longrightarrow>
      \<not> (st < int (length tx) \<and> next_start cs ov tx st = st)"
    and body: "(if st < int (length tx)
      then let end1 = chunk_end cs tx st; chunk = strip (py_slice tx st end1)
           in f cs ov tx (next_start cs ov tx st) (if chunk \<noteq> [] then cks @ [chunk] else cks)
      else Some cks) = Some y"
  show "\<not> (st < int (length tx) \<and> next_start cs ov tx st = st)"
  proof
    assume a: "st < int (length tx) \<and> next_start cs ov tx st = st"
    with body obtain cks' where "f cs ov tx st cks' = Some y"
      by (auto simp: Let_def split: if_splits)
    from IH[OF this] a show False by simp
  qed
qed

lemma split_loop_stuck_None:
  assumes "start < int (length text)"
    and "next_start chunk_size chunk_overlap text start = start"
  shows "split_loop chunk_size chunk_overlap text start chunks = None"
proof (cases "split_loop chunk_size chunk_overlap text start chunks")
  case None
  then show ?thesis .
next
  case (Some y)
  from split_loop_stuck[OF this] assms show ?thesis by simp
qed

lemma snap_chunk_end: "chunk_end 4 ''ab cdefgh'' 0 = 3"
  by code_simp

lemma snap_next_start_0: "next_start 4 2 ''ab cdefgh'' 0 = 1"
  by code_simp

lemma snap_next_start_1: "next_start 4 2 ''ab cdefgh'' 1 = 1"
  by code_simp

lemma snap_slice: "py_slice ''ab cdefgh'' 0 3 = ''ab ''"
  by code_simp

lemma snap_strip: "strip ''ab '' = ''ab''"
  by code_simp

lemma snap_first_iteration:
  "split_text 4 2 ''ab cdefgh'' = split_loop 4 2 ''ab cdefgh'' 1 [''ab'']"
  unfolding split_text_def
  by (subst split_loop.simps)
     (simp add: snap_next_start_0 snap_chunk_end snap_slice snap_strip del: list.simps)

lemma overlap_next_start: "next_start 2 2 ''abc'' 0 = 0"
  by code_simp

section \<open>Claims about the text splitter\<close>

text \<open>
  C2 fails on the code.  With \<open>chunk_size = 4\<close> and \<open>overlap = 2\<close> the text
  \<open>ab cdefgh\<close> is cut at the space, \<open>end = 3\<close>, so the next \<open>start\<close> is \<open>1\<close>; from
  \<open>start = 1\<close> the cut is again at the space and the next \<open>start\<close> is again \<open>1\<close>: the
  loop never returns.  With \<open>overlap = chunk_size = 2\<close> the text \<open>abc\<close> never leaves
  \<open>start = 0\<close>.
\<close>

theorem split_text_does_not_terminate:
  "split_text 4 2 ''ab cdefgh'' = None \<and> next_start 4 2 ''ab cdefgh'' 1 = 1 \<and>
   split_text 2 2 ''abc'' = None \<and> next_start 2 2 ''abc'' 0 = 0"
proof -
  have "split_loop 4 2 ''ab cdefgh'' 1 [''ab''] = None"
    by (rule split_loop_stuck_None) (simp_all add: snap_next_start_1)
  then have a: "split_text 4 2 ''ab cdefgh'' = None"
    by (simp add: snap_first_iteration)
  have b: "split_text 2 2 ''abc'' = None"
    unfolding split_text_def
    by (rule split_loop_stuck_None) (simp_all add: overlap_next_start)
  from a b show ?thesis
    by (simp add: snap_next_start_1 overlap_next_start)
qed

section \<open>Claims about the session memory and the agent\<close>

text \<open>
  C5 fails on the code when \<open>max_history = 0\<close>.  The session then holds one non-system
  message, more than \<open>2 \<times> 0\<close>, and the trim should leave the system message alone; but
  the slice \<^verbatim>\<open>[-self.max_history * 2:]\<close> is \<^verbatim>\<open>[0:]\<close>, the whole list, and the user
  message stays.
\<close>

theorem trim_keeps_everything_when_max_history_zero:
  "sessions (add_message (toy_config\<lparr>max_history := 0\<rparr>) ''s0'' ''user'' ''hi'' toy_world_session) ''s0'' =
     Some [toy_system_message, \<lparr>msg_role = ''user'', msg_content = ''hi'', msg_timestamp = 5\<rparr>]"
proof -
  let ?cfg = "toy_config\<lparr>max_history := 0\<rparr>"
  have s: "sessions toy_world_session ''s0'' = Some [toy_system_message]"
    by (simp add: toy_world_session_def)
  have f: "clock ?cfg (ticks toy_world_session) - last_access toy_world_session ''s0''
      \<le> real_of_int (ttl ?cfg)"
    by (simp add: toy_world_session_def toy_config_def last_access_def)
  show ?thesis
    unfolding add_message_fresh[OF s f]
    by (simp add: trim_history_def py_slice_from_def py_clamp_def toy_system_message_def
        toy_config_def toy_world_session_def)
qed

text \<open>
  C1 fails on the code when the first reply requests more than one search.  In the toy
  run the reply asks for two searches; the first retrieves a chunk of \<open>a.txt\<close>, the second
  a chunk of \<open>b.txt\<close>, all four searches take place, and the returned sources are those
  of the second call alone: \<^verbatim>\<open>sources = list(set(...))\<close> overwrites the variable in
  every iteration.
\<close>

theorem sources_of_last_call_only:
  "fst (process_query toy_config ''find'' (Some ''s0'') toy_world_session) =
     Inr \<lparr>answer = ''done'', sources = [MStr ''b.txt''], result_session_id = ''s0''\<rparr> \<and>
   filter is_search (trace (snd (process_query toy_config ''find'' (Some ''s0'') toy_world_session))) =
     [Search ''ab'' (Some 1), Search ''ab'' (Some 1), Search ''ba'' (Some 1), Search ''ba'' (Some 1)] \<and>
   fst (retrieve toy_config ''ab'' (Some 1) toy_world_session) =
     Inr [to_retrieved (mk_doc ''ab'' ''a.txt'', 0)] \<and>
   r_source (to_retrieved (mk_doc ''ab'' ''a.txt'', 0)) = MStr ''a.txt''"
proof -
  have v: "vstore toy_world_session = toy_store" by (simp add: toy_world_session_def)
  from toy_process_find toy_retrieve_ab[OF v] toy_source_ab show ?thesis by simp
qed

text \<open>
  C7. Let \<open>messages\<close> be the working list read from the history.  During one query the
  agent calls the completion service first with \<open>messages\<close> and the tool schema, and
  after that at most once more, without the schema: at most two completion calls, one
  tool round.  When the first reply carries no tool call (none, or an empty list), nothing
  follows the first call (no search of the index, no second completion), and the query
  returns the reply's content as the answer with an empty list of sources.
\<close>

theorem one_tool_round:
  assumes p: "prepare cfg query session_id w = (sid, messages, w3)"
  shows "\<exists>evs. trace (snd (process_query cfg query session_id w)) =
             trace w @ Completion messages True # evs \<and>
           (filter is_completion evs = [] \<or> (\<exists>m. filter is_completion evs = [Completion m False])) \<and>
           (\<forall>rm. completions_create cfg messages True = Inr rm \<and>
                 (tool_calls rm = None \<or> tool_calls rm = Some []) \<longrightarrow>
                 evs = [] \<and>
                 fst (process_query cfg query session_id w) =
                   Inr \<lparr>answer = reply_content rm, sources = [], result_session_id = sid\<rparr>)"
proof (cases "\<exists>rm. completions_create cfg messages True = Inr rm \<and>
                 (tool_calls rm = None \<or> tool_calls rm = Some [])")
  case True
  then obtain rm where rm: "completions_create cfg messages True = Inr rm"
    "tool_calls rm = None \<or> tool_calls rm = Some []" by blast
  from process_query_direct[OF p rm] trace_prepare[OF p] rm(1) show ?thesis
    by (intro exI[of _ "[]"]) simp
next
  case False
  from process_query_frame[OF p] obtain evs where
    c: "filter is_completion evs = [] \<or> (\<exists>m. filter is_completion evs = [Completion m False])"
    and f: "case fst (process_query cfg query session_id w) of
        Inl e \<Rightarrow> snd (process_query cfg query session_id w) =
                   w3\<lparr>trace := trace w3 @ Completion messages True # evs\<rparr>
      | Inr r \<Rightarrow> result_session_id r = sid \<and>
                 snd (process_query cfg query session_id w) =
                   (add_message cfg sid ''assistant'' (answer r) w3)
                     \<lparr>trace := trace w3 @ Completion messages True # evs\<rparr>"
    by blast
  from f trace_prepare[OF p]
  have "trace (snd (process_query cfg query session_id w)) = trace w @ Completion messages True # evs"
    by (cases "fst (process_query cfg query session_id w)") simp_all
  with c False show ?thesis by blast
qed

theorem one_tool_round_witness:
  "trace (snd (process_query toy_config ''hi'' (Some ''s0'') toy_world_session)) =
     [Completion [Dict ''system'' SYSTEM_PROMPT, Dict ''user'' ''hi''] True] \<and>
   fst (process_query toy_config ''hi'' (Some ''s0'') toy_world_session) =
     Inr \<lparr>answer = ''hello'', sources = [], result_session_id = ''s0''\<rparr>"
proof -
  let ?m = "[Dict ''system'' SYSTEM_PROMPT, Dict ''user'' ''hi'']"
  let ?rm = "\<lparr>reply_content = ''hello'', tool_calls = None\<rparr>"
  from one_tool_round[OF toy_prepare, of "''hi''"] obtain evs where
    t: "trace (snd (process_query toy_config ''hi'' (Some ''s0'') toy_world_session)) =
          trace toy_world_session @ Completion ?m True # evs"
    and d: "\<forall>rm. completions_create toy_config ?m True = Inr rm \<and>
                 (tool_calls rm = None \<or> tool_calls rm = Some []) \<longrightarrow>
                 evs = [] \<and>
                 fst (process_query toy_config ''hi'' (Some ''s0'') toy_world_session) =
                   Inr \<lparr>answer = reply_content rm, sources = [], result_session_id = ''s0''\<rparr>"
    by blast
  have h: "completions_create toy_config ?m True = Inr ?rm \<and>
      (tool_calls ?rm = None \<or> tool_calls ?rm = Some [])"
    by (simp add: toy_first_reply_hi)
  from d[rule_format, OF h] t show ?thesis
    by (simp add: toy_world_session_def)
qed

text \<open>
  C6, as stated, fails: a query presented with the identifier of an evicted session does
  not always leave a new session behind.  The session that \<^verbatim>\<open>process_query\<close> creates is
  itself checked for expiry by every \<^verbatim>\<open>add_message\<close>; with a TTL of zero seconds and a
  clock that advances between two readings, the session is created, found expired by the
  \<^verbatim>\<open>add_message\<close> of its system message and removed.  The query still returns the new
  identifier \<open>s1\<close> with its answer, but no session of that name exists afterwards: no
  system message, no history.
\<close>

theorem new_session_expires_at_once_counterexample:
  "\<not> fst (session_exists zero_ttl_config ''s0'' toy_world_idle) \<and>
   fst (process_query zero_ttl_config ''hi'' (Some ''s0'')
          (snd (session_exists zero_ttl_config ''s0'' toy_world_idle))) =
     Inr \<lparr>answer = ''hello'', sources = [], result_session_id = ''s1''\<rparr> \<and>
   sessions (snd (process_query zero_ttl_config ''hi'' (Some ''s0'')
          (snd (session_exists zero_ttl_config ''s0'' toy_world_idle)))) ''s1'' = None"
proof -
  let ?cfg = zero_ttl_config
  let ?w0 = "cleanup_session ''s0'' (toy_world_idle\<lparr>ticks := Suc (ticks toy_world_idle)\<rparr>)"
  have present: "sessions toy_world_idle ''s0'' = Some [toy_system_message]"
    by (simp add: toy_world_idle_def toy_world_session_def)
  have idle: "clock ?cfg (ticks toy_world_idle) - last_access toy_world_idle ''s0''
      > real_of_int (ttl ?cfg)"
    by (simp add: toy_world_idle_def toy_world_session_def zero_ttl_config_def toy_config_def
        last_access_def)
  have x: "session_exists ?cfg ''s0'' toy_world_idle = (False, ?w0)"
    unfolding session_exists_def by (rule is_session_valid_expired[OF present idle])
  have u: "uuid4 ?cfg (uuids ?w0) = ''s1''"
    by (simp add: cleanup_session_def toy_world_idle_def toy_world_session_def
        zero_ttl_config_def toy_config_def char_of_49)
  let ?w2 = "snd (create_session ?cfg ?w0)"
  have w2: "?w2 = ?w0\<lparr>uuids := Suc (uuids ?w0), ticks := Suc (ticks ?w0),
        sessions := (sessions ?w0)(''s1'' \<mapsto> []),
        session_timestamps := (session_timestamps ?w0)(''s1'' \<mapsto> clock ?cfg (ticks ?w0))\<rparr>"
    unfolding create_session_eq snd_conv u ..
  have s2: "sessions ?w2 ''s1'' = Some []" unfolding w2 by simp
  have e2: "clock ?cfg (ticks ?w2) - last_access ?w2 ''s1'' > real_of_int (ttl ?cfg)"
    unfolding w2
    by (simp add: last_access_def cleanup_session_def toy_world_idle_def toy_world_session_def
        zero_ttl_config_def toy_config_def)
  let ?w3 = "cleanup_session ''s1'' (?w2\<lparr>ticks := Suc (ticks ?w2)\<rparr>)"
  have a: "add_message ?cfg ''s1'' ''system'' SYSTEM_PROMPT ?w2 = ?w3"
    by (rule add_message_expired[OF s2 e2])
  have s0: "sessions ?w0 ''s0'' = None" by (simp add: cleanup_session_def)
  have "resolve_session ?cfg (Some ''s0'') ?w0 =
      (uuid4 ?cfg (uuids ?w0),
       add_message ?cfg (uuid4 ?cfg (uuids ?w0)) ''system'' SYSTEM_PROMPT ?w2)"
    using s0
    by (simp add: resolve_session_def session_exists_def is_session_valid_absent create_session_eq)
  then have r: "resolve_session ?cfg (Some ''s0'') ?w0 = (''s1'', ?w3)"
    unfolding u a .
  have s3: "sessions ?w3 ''s1'' = None" by (simp add: cleanup_session_def)
  have p: "prepare ?cfg ''hi'' (Some ''s0'') ?w0 = (''s1'', [], ?w3)"
    unfolding prepare_def r Let_def prod.case add_message_absent[OF s3] get_history_absent[OF s3]
    by simp
  have c: "completions_create ?cfg [] True = Inr \<lparr>reply_content = ''hello'', tool_calls = None\<rparr>"
    by (simp add: zero_ttl_config_def toy_config_def toy_completions_def)
  have s4: "sessions (?w3\<lparr>trace := trace ?w3 @ [Completion [] True]\<rparr>) ''s1'' = None"
    by (simp add: cleanup_session_def)
  have q: "process_query ?cfg ''hi'' (Some ''s0'') ?w0 =
      (Inr \<lparr>answer = ''hello'', sources = [], result_session_id = ''s1''\<rparr>,
       ?w3\<lparr>trace := trace ?w3 @ [Completion [] True]\<rparr>)"
    using process_query_direct[OF p c] add_message_absent[OF s4] by simp
  show ?thesis unfolding x fst_conv snd_conv q using s4 by simp
qed

text \<open>
  C6 (amended). \<^verbatim>\<open>session_exists\<close> is true only if the session is present and the clock
  reading of the check, minus the session's last access, is at most the TTL.  When the
  check finds a present session expired, it answers false and removes the session (its
  history and its timestamp); a query presented with that (non-empty) identifier behaves
  as the same query presented after the removal.  A query \<^verbatim>\<open>process_query\<close> presented
  with an identifier that is not present starts a new session, provided that the
  identifier generator returns an identifier other than the one presented and that the
  new session does not itself expire during the query (each validity check of the query
  reads the clock at most the TTL after the session's last access; this fails for a TTL
  of zero).  Then, after the query, the presented identifier still names no session, every
  session other than the new one is as before, the new session's history starts with a
  newly stamped system message, and the identifier a returning query reports is the new
  one, different from the one presented.  With a non-negative history bound the new
  session holds exactly the system message, the user's query and, if the query returned,
  its answer.
\<close>

theorem expired_session_evicted_and_replaced:
  "(fst (session_exists cfg sid w) \<longrightarrow>
      sessions w sid \<noteq> None \<and> clock cfg (ticks w) - last_access w sid \<le> real_of_int (ttl cfg)) \<and>
   (sessions w sid \<noteq> None \<and> clock cfg (ticks w) - last_access w sid > real_of_int (ttl cfg) \<longrightarrow>
      \<not> fst (session_exists cfg sid w) \<and>
      sessions (snd (session_exists cfg sid w)) sid = None \<and>
      session_timestamps (snd (session_exists cfg sid w)) sid = None \<and>
      (sid \<noteq> [] \<longrightarrow>
         process_query cfg query (Some sid) w =
         process_query cfg query (Some sid) (snd (session_exists cfg sid w)))) \<and>
   (sessions wq sid = None \<and> uuid4 cfg (uuids wq) \<noteq> sid \<and>
    clock cfg (ticks wq + 1) - clock cfg (ticks wq) \<le> real_of_int (ttl cfg) \<and>
    clock cfg (ticks wq + 4) - clock cfg (ticks wq + 3) \<le> real_of_int (ttl cfg) \<and>
    clock cfg (ticks wq + 7) - clock cfg (ticks wq + 6) \<le> real_of_int (ttl cfg) \<and>
    clock cfg (ticks wq + 8) - clock cfg (ticks wq + 6) \<le> real_of_int (ttl cfg) \<and>
    process_query cfg query (Some sid) wq = (res, w') \<longrightarrow>
      sessions w' sid = None \<and>
      (\<forall>s. s \<noteq> uuid4 cfg (uuids wq) \<longrightarrow> sessions w' s = sessions wq s) \<and>
      (\<exists>rest. sessions w' (uuid4 cfg (uuids wq)) =
         Some (\<lparr>msg_role = ''system'', msg_content = SYSTEM_PROMPT,
                 msg_timestamp = clock cfg (ticks wq + 2)\<rparr> # rest)) \<and>
      (\<forall>r. res = Inr r \<longrightarrow>
         result_session_id r = uuid4 cfg (uuids wq) \<and> result_session_id r \<noteq> sid) \<and>
      (0 \<le> max_history cfg \<longrightarrow>
         (\<forall>e. res = Inl e \<longrightarrow>
            sessions w' (uuid4 cfg (uuids wq)) =
              Some [\<lparr>msg_role = ''system'', msg_content = SYSTEM_PROMPT,
                      msg_timestamp = clock cfg (ticks wq + 2)\<rparr>,
                    \<lparr>msg_role = ''user'', msg_content = query,
                      msg_timestamp = clock cfg (ticks wq + 5)\<rparr>]) \<and>
         (\<forall>r. res = Inr r \<longrightarrow>
            sessions w' (uuid4 cfg (uuids wq)) =
              Some [\<lparr>msg_role = ''system'', msg_content = SYSTEM_PROMPT,
                      msg_timestamp = clock cfg (ticks wq + 2)\<rparr>,
                    \<lparr>msg_role = ''user'', msg_content = query,
                      msg_timestamp = clock cfg (ticks wq + 5)\<rparr>,
                    \<lparr>msg_role = ''assistant'', msg_content = answer r,
                      msg_timestamp = clock cfg (ticks wq + 9)\<rparr>])))"
proof (intro conjI impI)
  assume a: "fst (session_exists cfg sid w)"
  show "sessions w sid \<noteq> None"
  proof
    assume "sessions w sid = None"
    with a show False by (simp add: session_exists_def is_session_valid_absent)
  qed
next
  assume a: "fst (session_exists cfg sid w)"
  show "clock cfg (ticks w) - last_access w sid \<le> real_of_int (ttl cfg)"
  proof (rule ccontr)
    assume n: "\<not> clock cfg (ticks w) - last_access w sid \<le> real_of_int (ttl cfg)"
    from a obtain h where "sessions w sid = Some h"
      by (cases "sessions w sid") (simp_all add: session_exists_def is_session_valid_absent)
    with n a show False by (simp add: session_exists_def is_session_valid_expired)
  qed
next
  assume a: "sessions w sid \<noteq> None \<and> clock cfg (ticks w) - last_access w sid > real_of_int (ttl cfg)"
  then obtain h where h: "sessions w sid = Some h" by auto
  from a have e: "clock cfg (ticks w) - last_access w sid > real_of_int (ttl cfg)" by simp
  have x: "session_exists cfg sid w = (False, cleanup_session sid (w\<lparr>ticks := Suc (ticks w)\<rparr>))"
    unfolding session_exists_def by (rule is_session_valid_expired[OF h e])
  show "\<not> fst (session_exists cfg sid w)" by (simp add: x)
  show "sessions (snd (session_exists cfg sid w)) sid = None" by (simp add: x cleanup_session_def)
  show "session_timestamps (snd (session_exists cfg sid w)) sid = None"
    by (simp add: x cleanup_session_def)
  assume "sid \<noteq> []"
  then show "process_query cfg query (Some sid) w =
         process_query cfg query (Some sid) (snd (session_exists cfg sid w))"
    using h e by (rule process_query_expired_same)
next
  let ?new = "uuid4 cfg (uuids wq)"
  let ?sys = "\<lparr>msg_role = ''system'', msg_content = SYSTEM_PROMPT,
               msg_timestamp = clock cfg (ticks wq + 2)\<rparr>"
  let ?usr = "\<lparr>msg_role = ''user'', msg_content = query,
               msg_timestamp = clock cfg (ticks wq + 5)\<rparr>"
  define H where "H = trim_history (max_history cfg) [?sys, ?usr]"
  assume a: "sessions wq sid = None \<and> ?new \<noteq> sid \<and>
    clock cfg (ticks wq + 1) - clock cfg (ticks wq) \<le> real_of_int (ttl cfg) \<and>
    clock cfg (ticks wq + 4) - clock cfg (ticks wq + 3) \<le> real_of_int (ttl cfg) \<and>
    clock cfg (ticks wq + 7) - clock cfg (ticks wq + 6) \<le> real_of_int (ttl cfg) \<and>
    clock cfg (ticks wq + 8) - clock cfg (ticks wq + 6) \<le> real_of_int (ttl cfg) \<and>
    process_query cfg query (Some sid) wq = (res, w')"
  then have absent: "sessions wq sid = None" and fresh: "?new \<noteq> sid"
    and g1: "clock cfg (ticks wq + 1) - clock cfg (ticks wq) \<le> real_of_int (ttl cfg)"
    and g2: "clock cfg (ticks wq + 4) - clock cfg (ticks wq + 3) \<le> real_of_int (ttl cfg)"
    and g3: "clock cfg (ticks wq + 7) - clock cfg (ticks wq + 6) \<le> real_of_int (ttl cfg)"
    and g4: "clock cfg (ticks wq + 8) - clock cfg (ticks wq + 6) \<le> real_of_int (ttl cfg)"
    and run: "process_query cfg query (Some sid) wq = (res, w')"
    by simp_all
  from absent have c: "Some sid = None \<or> Some sid = Some [] \<or>
      (\<exists>s. Some sid = Some s \<and> sessions wq s = None)" by simp
  note n = process_query_new[OF c g1 g2 g3 g4 H_def run]
  from n have err: "\<And>e. res = Inl e \<Longrightarrow> sessions w' = (sessions wq)(?new \<mapsto> H)" by blast
  from n have ok: "\<And>r. res = Inr r \<Longrightarrow> sessions w' = (sessions wq)(?new \<mapsto>
      trim_history (max_history cfg) (H @ [\<lparr>msg_role = ''assistant'', msg_content = answer r,
                     msg_timestamp = clock cfg (ticks wq + 9)\<rparr>]))" by blast
  from n show id: "\<forall>r. res = Inr r \<longrightarrow> result_session_id r = ?new \<and> result_session_id r \<noteq> sid"
    using fresh by simp
  have others: "\<exists>v. sessions w' = (sessions wq)(?new \<mapsto> v)"
    using err ok by (cases res) blast+
  then show "\<forall>s. s \<noteq> ?new \<longrightarrow> sessions w' s = sessions wq s" by auto
  from others show "sessions w' sid = None" using fresh absent by auto
  obtain rest1 where H1: "H = ?sys # rest1"
    unfolding H_def using trim_history_system_first[of ?sys "max_history cfg" "[?usr]"] by auto
  show "\<exists>rest. sessions w' ?new = Some (?sys # rest)"
  proof (cases res)
    case (Inl e)
    with err H1 show ?thesis by simp
  next
    case (Inr r)
    obtain rest where "trim_history (max_history cfg) (?sys # (rest1 @ [\<lparr>msg_role = ''assistant'',
        msg_content = answer r, msg_timestamp = clock cfg (ticks wq + 9)\<rparr>])) = ?sys # rest"
      using trim_history_system_first[of ?sys "max_history cfg"] by force
    with ok[OF Inr] H1 show ?thesis by simp
  qed
  assume mh: "0 \<le> max_history cfg"
  have H2: "H = [?sys, ?usr]" unfolding H_def using mh by (simp add: trim_history_two)
  show "\<forall>e. res = Inl e \<longrightarrow> sessions w' ?new = Some [?sys, ?usr]"
    using err H2 by simp
  show "\<forall>r. res = Inr r \<longrightarrow> sessions w' ?new = Some [?sys, ?usr,
      \<lparr>msg_role = ''assistant'', msg_content = answer r, msg_timestamp = clock cfg (ticks wq + 9)\<rparr>]"
    using ok H2 mh by (simp add: trim_history_three)
qed

theorem expired_session_evicted_and_replaced_witness:
  "sessions toy_world_session ''s0'' \<noteq> None \<and>
   \<not> fst (session_exists toy_config ''s0'' toy_world_idle) \<and>
   sessions (snd (session_exists toy_config ''s0'' toy_world_idle)) ''s0'' = None \<and>
   fst (process_query toy_config ''hi'' (Some ''s0'') toy_world_idle) =
     Inr \<lparr>answer = ''hello'', sources = [], result_session_id = ''s1''\<rparr> \<and>
   sessions (snd (process_query toy_config ''hi'' (Some ''s0'') toy_world_idle)) ''s0'' = None \<and>
   sessions (snd (process_query toy_config ''hi'' (Some ''s0'') toy_world_idle)) ''s1'' =
     Some [\<lparr>msg_role = ''system'', msg_content = SYSTEM_PROMPT, msg_timestamp = 4003\<rparr>,
           \<lparr>msg_role = ''user'', msg_content = ''hi'', msg_timestamp = 4006\<rparr>,
           \<lparr>msg_role = ''assistant'', msg_content = ''hello'', msg_timestamp = 4010\<rparr>]"
proof -
  let ?w1 = "snd (session_exists toy_config ''s0'' toy_world_idle)"
  let ?run = "process_query toy_config ''hi'' (Some ''s0'') ?w1"
  let ?ok = "\<lparr>answer = ''hello'', sources = [], result_session_id = ''s1''\<rparr>"
  have fresh: "fst (session_exists toy_config ''s0'' toy_world_session)"
    unfolding session_exists_def
    by (simp add: is_session_valid_fresh[OF toy_session_checks(1,2)])
  have present: "sessions toy_world_idle ''s0'' \<noteq> None"
    by (simp add: toy_world_idle_def toy_world_session_def)
  have idle: "clock toy_config (ticks toy_world_idle) - last_access toy_world_idle ''s0''
      > real_of_int (ttl toy_config)"
    by (simp add: toy_world_idle_def toy_world_session_def toy_config_def last_access_def)
  have w1: "?w1 = cleanup_session ''s0'' (toy_world_idle\<lparr>ticks := Suc (ticks toy_world_idle)\<rparr>)"
    using present idle
    by (cases "sessions toy_world_idle ''s0''")
       (simp_all add: session_exists_def is_session_valid_expired)
  have t: "ticks ?w1 = 4001" "uuids ?w1 = 1"
    unfolding w1 by (simp_all add: cleanup_session_def toy_world_idle_def toy_world_session_def)
  have absent: "sessions ?w1 ''s0'' = None" unfolding w1 by (simp add: cleanup_session_def)
  have u: "uuid4 toy_config (uuids ?w1) = ''s1''"
    unfolding t by (simp add: toy_config_def char_of_49)
  have g1: "clock toy_config (ticks ?w1 + 1) - clock toy_config (ticks ?w1)
      \<le> real_of_int (ttl toy_config)"
    and g2: "clock toy_config (ticks ?w1 + 4) - clock toy_config (ticks ?w1 + 3)
      \<le> real_of_int (ttl toy_config)"
    and g3: "clock toy_config (ticks ?w1 + 7) - clock toy_config (ticks ?w1 + 6)
      \<le> real_of_int (ttl toy_config)"
    and g4: "clock toy_config (ticks ?w1 + 8) - clock toy_config (ticks ?w1 + 6)
      \<le> real_of_int (ttl toy_config)"
    unfolding t by (simp_all add: toy_config_def)
  have c: "clock toy_config (ticks ?w1 + 2) = 4003" "clock toy_config (ticks ?w1 + 5) = 4006"
    "clock toy_config (ticks ?w1 + 9) = 4010"
    unfolding t by (simp_all add: toy_config_def)
  have mh: "0 \<le> max_history toy_config" by (simp add: toy_config_def)
  have ab: "Some ''s0'' = None \<or> Some ''s0'' = Some [] \<or>
      (\<exists>s. Some ''s0'' = Some s \<and> sessions ?w1 s = None)" using absent by simp
  have p: "prepare toy_config ''hi'' (Some ''s0'') ?w1 =
     (uuid4 toy_config (uuids ?w1),
      map to_dict [\<lparr>msg_role = ''system'', msg_content = SYSTEM_PROMPT,
                     msg_timestamp = clock toy_config (ticks ?w1 + 2)\<rparr>,
                   \<lparr>msg_role = ''user'', msg_content = ''hi'',
                     msg_timestamp = clock toy_config (ticks ?w1 + 5)\<rparr>],
      ?w1\<lparr>uuids := Suc (uuids ?w1), ticks := ticks ?w1 + 8,
        sessions := (sessions ?w1)(uuid4 toy_config (uuids ?w1) \<mapsto>
           [\<lparr>msg_role = ''system'', msg_content = SYSTEM_PROMPT,
              msg_timestamp = clock toy_config (ticks ?w1 + 2)\<rparr>,
            \<lparr>msg_role = ''user'', msg_content = ''hi'',
              msg_timestamp = clock toy_config (ticks ?w1 + 5)\<rparr>]),
        session_timestamps := (session_timestamps ?w1)(uuid4 toy_config (uuids ?w1) \<mapsto>
           clock toy_config (ticks ?w1 + 6))\<rparr>)"
    by (rule prepare_new[OF ab g1 g2 g3]) (simp add: trim_history_two mh)
  have r: "completions_create toy_config
       (map to_dict [\<lparr>msg_role = ''system'', msg_content = SYSTEM_PROMPT,
                     msg_timestamp = clock toy_config (ticks ?w1 + 2)\<rparr>,
                   \<lparr>msg_role = ''user'', msg_content = ''hi'',
                     msg_timestamp = clock toy_config (ticks ?w1 + 5)\<rparr>]) True =
     Inr \<lparr>reply_content = ''hello'', tool_calls = None\<rparr>"
    by (simp add: toy_config_def toy_completions_def to_dict_def)
  have res: "fst ?run = Inr ?ok"
    using process_query_direct[OF p r] u by simp
  then have run: "?run = (Inr ?ok, snd ?run)" by (metis prod.collapse)
  note a = expired_session_evicted_and_replaced[of toy_config "''s0''" toy_world_session]
  note b = expired_session_evicted_and_replaced[of toy_config "''s0''" toy_world_idle "''hi''"
      ?w1 "Inr ?ok" "snd ?run"]
  from a fresh have here: "sessions toy_world_session ''s0'' \<noteq> None" by blast
  from b present idle have gone: "\<not> fst (session_exists toy_config ''s0'' toy_world_idle)"
    and same: "process_query toy_config ''hi'' (Some ''s0'') toy_world_idle = ?run"
    by simp_all
  have hyp: "sessions ?w1 ''s0'' = None \<and> uuid4 toy_config (uuids ?w1) \<noteq> ''s0'' \<and>
    clock toy_config (ticks ?w1 + 1) - clock toy_config (ticks ?w1) \<le> real_of_int (ttl toy_config) \<and>
    clock toy_config (ticks ?w1 + 4) - clock toy_config (ticks ?w1 + 3) \<le> real_of_int (ttl toy_config) \<and>
    clock toy_config (ticks ?w1 + 7) - clock toy_config (ticks ?w1 + 6) \<le> real_of_int (ttl toy_config) \<and>
    clock toy_config (ticks ?w1 + 8) - clock toy_config (ticks ?w1 + 6) \<le> real_of_int (ttl toy_config) \<and>
    ?run = (Inr ?ok, snd ?run)"
    using absent g1 g2 g3 g4 run unfolding u by simp
  from b hyp have old: "sessions (snd ?run) ''s0'' = None"
    and new: "sessions (snd ?run) (uuid4 toy_config (uuids ?w1)) =
      Some [\<lparr>msg_role = ''system'', msg_content = SYSTEM_PROMPT,
              msg_timestamp = clock toy_config (ticks ?w1 + 2)\<rparr>,
            \<lparr>msg_role = ''user'', msg_content = ''hi'',
              msg_timestamp = clock toy_config (ticks ?w1 + 5)\<rparr>,
            \<lparr>msg_role = ''assistant'', msg_content = answer ?ok,
              msg_timestamp = clock toy_config (ticks ?w1 + 9)\<rparr>]"
    using mh by blast+
  show ?thesis
    unfolding same using here gone absent res old new unfolding u c by simp
qed

text \<open>
  C8, as stated, fails: the stored session does not always gain the user's query and the
  final answer.  \<^verbatim>\<open>add_message\<close> checks the session's validity before it appends; with a
  TTL of one second and a completion call that takes three, the query on the existing
  session \<open>s0\<close> returns its answer, but the final \<^verbatim>\<open>add_message\<close> finds the session
  expired, stores nothing and removes the session.
\<close>

theorem answer_dropped_when_session_expires_counterexample:
  "fst (process_query slow_config ''hi'' (Some ''s0'') toy_world_session) =
     Inr \<lparr>answer = ''hello'', sources = [], result_session_id = ''s0''\<rparr> \<and>
   sessions (snd (process_query slow_config ''hi'' (Some ''s0'') toy_world_session)) ''s0'' = None"
proof -
  let ?m = "[Dict ''system'' SYSTEM_PROMPT, Dict ''user'' ''hi'']"
  let ?w3 = "toy_world_session\<lparr>ticks := 9,
        sessions := [''s0'' \<mapsto> [toy_system_message,
           \<lparr>msg_role = ''user'', msg_content = ''hi'', msg_timestamp = 3\<rparr>]],
        session_timestamps := [''s0'' \<mapsto> 3]\<rparr>"
  let ?w4 = "?w3\<lparr>trace := trace ?w3 @ [Completion ?m True]\<rparr>"
  have c: "completions_create slow_config ?m True = Inr \<lparr>reply_content = ''hello'', tool_calls = None\<rparr>"
    by (simp add: slow_config_def toy_config_def toy_completions_def)
  have s: "sessions ?w4 ''s0'' = Some [toy_system_message,
           \<lparr>msg_role = ''user'', msg_content = ''hi'', msg_timestamp = 3\<rparr>]"
    by simp
  have e: "clock slow_config (ticks ?w4) - last_access ?w4 ''s0'' > real_of_int (ttl slow_config)"
    by (simp add: slow_config_def toy_config_def last_access_def)
  have a: "sessions (add_message slow_config ''s0'' ''assistant'' ''hello'' ?w4) ''s0'' = None"
    unfolding add_message_expired[OF s e] by (simp add: cleanup_session_def)
  have n: "tool_calls \<lparr>reply_content = ''hello'', tool_calls = None\<rparr> = None \<or>
      tool_calls \<lparr>reply_content = ''hello'', tool_calls = None\<rparr> = Some []" by simp
  note pq = process_query_direct[OF slow_prepare c n]
  show ?thesis unfolding pq fst_conv snd_conv using a by simp
qed

text \<open>
  C8 (amended). Let the opening of a query (session resolved, user's query stored,
  history read into the working list \<open>messages\<close>) leave the state \<open>w3\<close>.
  \<^item> The tool round stores nothing.  If an exception ends the query, the sessions and
    their timestamps are those of \<open>w3\<close>.  If the query returns, the only store operation
    after \<open>w3\<close> is one \<^verbatim>\<open>add_message\<close> of the final answer with role assistant: it
    changes nothing if the session is absent, removes the session if it has expired by
    then, and otherwise appends that one message (followed by the usual trim).
  \<^item> The assistant's tool-call message and one tool-result message per
    \<open>search_documents\<close> call are appended to the working list: when the first reply
    requests tool calls and the query returns, the last external call is the second
    completion, made without the tool schema on \<open>messages\<close> followed by the assistant's
    reply and the tool-result messages, and its content is the answer.
  \<^item> For an existing session that stays within its TTL during the query and has room
    for two more messages, the stored sessions after the query are the ones before it
    with exactly the user's query and the final answer appended to the queried session.
\<close>

theorem tool_round_not_persisted:
  assumes p: "prepare cfg query session_id w = (sid, messages, w3)"
    and run: "process_query cfg query session_id w = (res, w')"
  shows "(\<forall>e. res = Inl e \<longrightarrow>
            sessions w' = sessions w3 \<and> session_timestamps w' = session_timestamps w3) \<and>
         (\<forall>r. res = Inr r \<longrightarrow>
            (sessions w3 sid = None \<longrightarrow> sessions w' = sessions w3) \<and>
            (sessions w3 sid \<noteq> None \<and>
             clock cfg (ticks w3) - last_access w3 sid > real_of_int (ttl cfg) \<longrightarrow>
               sessions w' = (sessions w3)(sid := None)) \<and>
            (\<forall>h3. sessions w3 sid = Some h3 \<and>
                  clock cfg (ticks w3) - last_access w3 sid \<le> real_of_int (ttl cfg) \<longrightarrow>
               sessions w' = (sessions w3)(sid \<mapsto> trim_history (max_history cfg)
                 (h3 @ [\<lparr>msg_role = ''assistant'', msg_content = answer r,
                         msg_timestamp = clock cfg (ticks w3 + 1)\<rparr>])))) \<and>
         (\<forall>rm tc tcs r. completions_create cfg messages True = Inr rm \<and>
              tool_calls rm = Some (tc # tcs) \<and> res = Inr r \<longrightarrow>
            last (trace w') =
              Completion (messages @ AssistantReply rm # tool_messages cfg query w3 (tc # tcs)) False \<and>
            (\<exists>rm2. completions_create cfg
                      (messages @ AssistantReply rm # tool_messages cfg query w3 (tc # tcs)) False =
                    Inr rm2 \<and> answer r = reply_content rm2)) \<and>
         (\<forall>s h r. session_id = Some s \<and> s \<noteq> [] \<and> sessions w s = Some h \<and>
            clock cfg (ticks w) - last_access w s \<le> real_of_int (ttl cfg) \<and>
            clock cfg (ticks w + 1) - last_access w s \<le> real_of_int (ttl cfg) \<and>
            clock cfg (ticks w + 4) - clock cfg (ticks w + 3) \<le> real_of_int (ttl cfg) \<and>
            clock cfg (ticks w + 5) - clock cfg (ticks w + 3) \<le> real_of_int (ttl cfg) \<and>
            int (length h) + 2 \<le> max_history cfg * 2 \<and> res = Inr r \<longrightarrow>
            sessions w' = (sessions w)(s \<mapsto> h @
               [\<lparr>msg_role = ''user'', msg_content = query,
                 msg_timestamp = clock cfg (ticks w + 2)\<rparr>,
                \<lparr>msg_role = ''assistant'', msg_content = answer r,
                 msg_timestamp = clock cfg (ticks w + 6)\<rparr>]))"
proof -
  from process_query_frame[OF p] obtain evs where
    f0: "case fst (process_query cfg query session_id w) of
        Inl e \<Rightarrow> snd (process_query cfg query session_id w) =
                   w3\<lparr>trace := trace w3 @ Completion messages True # evs\<rparr>
      | Inr r \<Rightarrow> result_session_id r = sid \<and>
                 snd (process_query cfg query session_id w) =
                   (add_message cfg sid ''assistant'' (answer r) w3)
                     \<lparr>trace := trace w3 @ Completion messages True # evs\<rparr>"
    by blast
  have f: "case res of
        Inl e \<Rightarrow> w' = w3\<lparr>trace := trace w3 @ Completion messages True # evs\<rparr>
      | Inr r \<Rightarrow> result_session_id r = sid \<and>
                 w' = (add_message cfg sid ''assistant'' (answer r) w3)
                     \<lparr>trace := trace w3 @ Completion messages True # evs\<rparr>"
    using f0 unfolding run fst_conv snd_conv .
  have c1: "\<forall>e. res = Inl e \<longrightarrow>
            sessions w' = sessions w3 \<and> session_timestamps w' = session_timestamps w3"
    using f by (cases res) simp_all
  have c2: "\<forall>r. res = Inr r \<longrightarrow>
            (sessions w3 sid = None \<longrightarrow> sessions w' = sessions w3) \<and>
            (sessions w3 sid \<noteq> None \<and>
             clock cfg (ticks w3) - last_access w3 sid > real_of_int (ttl cfg) \<longrightarrow>
               sessions w' = (sessions w3)(sid := None)) \<and>
            (\<forall>h3. sessions w3 sid = Some h3 \<and>
                  clock cfg (ticks w3) - last_access w3 sid \<le> real_of_int (ttl cfg) \<longrightarrow>
               sessions w' = (sessions w3)(sid \<mapsto> trim_history (max_history cfg)
                 (h3 @ [\<lparr>msg_role = ''assistant'', msg_content = answer r,
                         msg_timestamp = clock cfg (ticks w3 + 1)\<rparr>])))"
  proof (intro allI impI)
    fix r assume "res = Inr r"
    with f have s: "sessions w' = sessions (add_message cfg sid ''assistant'' (answer r) w3)"
      by simp
    show "(sessions w3 sid = None \<longrightarrow> sessions w' = sessions w3) \<and>
            (sessions w3 sid \<noteq> None \<and>
             clock cfg (ticks w3) - last_access w3 sid > real_of_int (ttl cfg) \<longrightarrow>
               sessions w' = (sessions w3)(sid := None)) \<and>
            (\<forall>h3. sessions w3 sid = Some h3 \<and>
                  clock cfg (ticks w3) - last_access w3 sid \<le> real_of_int (ttl cfg) \<longrightarrow>
               sessions w' = (sessions w3)(sid \<mapsto> trim_history (max_history cfg)
                 (h3 @ [\<lparr>msg_role = ''assistant'', msg_content = answer r,
                         msg_timestamp = clock cfg (ticks w3 + 1)\<rparr>])))"
    proof (intro conjI impI allI)
      assume "sessions w3 sid = None"
      then show "sessions w' = sessions w3" by (simp add: s add_message_absent)
    next
      assume a: "sessions w3 sid \<noteq> None \<and>
             clock cfg (ticks w3) - last_access w3 sid > real_of_int (ttl cfg)"
      then obtain h3 where "sessions w3 sid = Some h3" by auto
      with a show "sessions w' = (sessions w3)(sid := None)"
        by (simp add: s add_message_expired cleanup_session_def)
    next
      fix h3
      assume a: "sessions w3 sid = Some h3 \<and>
                  clock cfg (ticks w3) - last_access w3 sid \<le> real_of_int (ttl cfg)"
      then have h: "sessions w3 sid = Some h3"
        and fr: "clock cfg (ticks w3) - last_access w3 sid \<le> real_of_int (ttl cfg)" by simp_all
      show "sessions w' = (sessions w3)(sid \<mapsto> trim_history (max_history cfg)
                 (h3 @ [\<lparr>msg_role = ''assistant'', msg_content = answer r,
                         msg_timestamp = clock cfg (ticks w3 + 1)\<rparr>]))"
        unfolding s add_message_fresh[OF h fr] by simp
    qed
  qed
  have c3: "\<forall>rm tc tcs r. completions_create cfg messages True = Inr rm \<and>
              tool_calls rm = Some (tc # tcs) \<and> res = Inr r \<longrightarrow>
            last (trace w') =
              Completion (messages @ AssistantReply rm # tool_messages cfg query w3 (tc # tcs)) False \<and>
            (\<exists>rm2. completions_create cfg
                      (messages @ AssistantReply rm # tool_messages cfg query w3 (tc # tcs)) False =
                    Inr rm2 \<and> answer r = reply_content rm2)"
  proof (intro allI impI)
    fix rm tc tcs r
    assume a: "completions_create cfg messages True = Inr rm \<and>
              tool_calls rm = Some (tc # tcs) \<and> res = Inr r"
    then have run': "process_query cfg query session_id w = (Inr r, w')" using run by simp
    from a have c: "completions_create cfg messages True = Inr rm"
      and t: "tool_calls rm = Some (tc # tcs)" by simp_all
    show "last (trace w') =
              Completion (messages @ AssistantReply rm # tool_messages cfg query w3 (tc # tcs)) False \<and>
            (\<exists>rm2. completions_create cfg
                      (messages @ AssistantReply rm # tool_messages cfg query w3 (tc # tcs)) False =
                    Inr rm2 \<and> answer r = reply_content rm2)"
      by (rule process_query_second_call[OF p c t run'])
  qed
  have c4: "\<forall>s h r. session_id = Some s \<and> s \<noteq> [] \<and> sessions w s = Some h \<and>
            clock cfg (ticks w) - last_access w s \<le> real_of_int (ttl cfg) \<and>
            clock cfg (ticks w + 1) - last_access w s \<le> real_of_int (ttl cfg) \<and>
            clock cfg (ticks w + 4) - clock cfg (ticks w + 3) \<le> real_of_int (ttl cfg) \<and>
            clock cfg (ticks w + 5) - clock cfg (ticks w + 3) \<le> real_of_int (ttl cfg) \<and>
            int (length h) + 2 \<le> max_history cfg * 2 \<and> res = Inr r \<longrightarrow>
            sessions w' = (sessions w)(s \<mapsto> h @
               [\<lparr>msg_role = ''user'', msg_content = query,
                 msg_timestamp = clock cfg (ticks w + 2)\<rparr>,
                \<lparr>msg_role = ''assistant'', msg_content = answer r,
                 msg_timestamp = clock cfg (ticks w + 6)\<rparr>])"
  proof (intro allI impI)
    fix s h r
    assume a: "session_id = Some s \<and> s \<noteq> [] \<and> sessions w s = Some h \<and>
            clock cfg (ticks w) - last_access w s \<le> real_of_int (ttl cfg) \<and>
            clock cfg (ticks w + 1) - last_access w s \<le> real_of_int (ttl cfg) \<and>
            clock cfg (ticks w + 4) - clock cfg (ticks w + 3) \<le> real_of_int (ttl cfg) \<and>
            clock cfg (ticks w + 5) - clock cfg (ticks w + 3) \<le> real_of_int (ttl cfg) \<and>
            int (length h) + 2 \<le> max_history cfg * 2 \<and> res = Inr r"
    then have run': "process_query cfg query (Some s) w = (res, w')" using run by simp
    from a have h: "s \<noteq> []" "sessions w s = Some h"
      "clock cfg (ticks w) - last_access w s \<le> real_of_int (ttl cfg)"
      "clock cfg (ticks w + 1) - last_access w s \<le> real_of_int (ttl cfg)"
      "clock cfg (ticks w + 4) - clock cfg (ticks w + 3) \<le> real_of_int (ttl cfg)"
      "clock cfg (ticks w + 5) - clock cfg (ticks w + 3) \<le> real_of_int (ttl cfg)"
      by simp_all
    from process_query_existing_room[OF h run' refl] a
    show "sessions w' = (sessions w)(s \<mapsto> h @
               [\<lparr>msg_role = ''user'', msg_content = query,
                 msg_timestamp = clock cfg (ticks w + 2)\<rparr>,
                \<lparr>msg_role = ''assistant'', msg_content = answer r,
                 msg_timestamp = clock cfg (ticks w + 6)\<rparr>])"
      by blast
  qed
  from c1 c2 c3 c4 show ?thesis by (intro conjI)
qed

theorem tool_round_not_persisted_witness:
  "sessions (snd (process_query toy_config ''find'' (Some ''s0'') toy_world_session)) =
     [''s0'' \<mapsto> [toy_system_message,
        \<lparr>msg_role = ''user'', msg_content = ''find'', msg_timestamp = 6\<rparr>,
        \<lparr>msg_role = ''assistant'', msg_content = ''done'', msg_timestamp = 10\<rparr>]] \<and>
   last (trace (snd (process_query toy_config ''find'' (Some ''s0'') toy_world_session))) =
     Completion
       [Dict ''system'' SYSTEM_PROMPT, Dict ''user'' ''find'',
        AssistantReply \<lparr>reply_content = [], tool_calls = Some toy_calls\<rparr>,
        ToolResult ''call-1'' ''search_documents''
          (format_result 1 (to_retrieved (mk_doc ''ab'' ''a.txt'', 0))),
        ToolResult ''call-2'' ''search_documents''
          (format_result 1 (to_retrieved (mk_doc ''ba'' ''b.txt'', 0)))]
       False"
proof -
  let ?run = "process_query toy_config ''find'' (Some ''s0'') toy_world_session"
  let ?m = "[Dict ''system'' SYSTEM_PROMPT, Dict ''user'' ''find'']"
  let ?rm = "\<lparr>reply_content = [], tool_calls = Some toy_calls\<rparr>"
  let ?r = "\<lparr>answer = ''done'', sources = [MStr ''b.txt''], result_session_id = ''s0''\<rparr>"
  have run: "?run = (fst ?run, snd ?run)" by simp
  have res: "fst ?run = Inr ?r" using toy_process_find by simp
  have v: "vstore (toy_world_asked ''find'') = toy_store"
    by (simp add: toy_world_asked_def toy_world_session_def)
  note T = tool_round_not_persisted[OF toy_prepare run]
  have hyp: "Some ''s0'' = Some ''s0'' \<and> ''s0'' \<noteq> [] \<and>
      sessions toy_world_session ''s0'' = Some [toy_system_message] \<and>
      clock toy_config (ticks toy_world_session) - last_access toy_world_session ''s0''
        \<le> real_of_int (ttl toy_config) \<and>
      clock toy_config (ticks toy_world_session + 1) - last_access toy_world_session ''s0''
        \<le> real_of_int (ttl toy_config) \<and>
      clock toy_config (ticks toy_world_session + 4) - clock toy_config (ticks toy_world_session + 3)
        \<le> real_of_int (ttl toy_config) \<and>
      clock toy_config (ticks toy_world_session + 5) - clock toy_config (ticks toy_world_session + 3)
        \<le> real_of_int (ttl toy_config) \<and>
      int (length [toy_system_message]) + 2 \<le> max_history toy_config * 2 \<and> fst ?run = Inr ?r"
    using toy_session_checks res by (simp add: toy_config_def)
  from T have "\<forall>s h r. Some ''s0'' = Some s \<and> s \<noteq> [] \<and> sessions toy_world_session s = Some h \<and>
            clock toy_config (ticks toy_world_session) - last_access toy_world_session s
              \<le> real_of_int (ttl toy_config) \<and>
            clock toy_config (ticks toy_world_session + 1) - last_access toy_world_session s
              \<le> real_of_int (ttl toy_config) \<and>
            clock toy_config (ticks toy_world_session + 4) - clock toy_config (ticks toy_world_session + 3)
              \<le> real_of_int (ttl toy_config) \<and>
            clock toy_config (ticks toy_world_session + 5) - clock toy_config (ticks toy_world_session + 3)
              \<le> real_of_int (ttl toy_config) \<and>
            int (length h) + 2 \<le> max_history toy_config * 2 \<and> fst ?run = Inr r \<longrightarrow>
            sessions (snd ?run) = (sessions toy_world_session)(s \<mapsto> h @
               [\<lparr>msg_role = ''user'', msg_content = ''find'',
                 msg_timestamp = clock toy_config (ticks toy_world_session + 2)\<rparr>,
                \<lparr>msg_role = ''assistant'', msg_content = answer r,
                 msg_timestamp = clock toy_config (ticks toy_world_session + 6)\<rparr>])"
    by blast
  from this[rule_format, OF hyp]
  have stored: "sessions (snd ?run) =
     [''s0'' \<mapsto> [toy_system_message,
        \<lparr>msg_role = ''user'', msg_content = ''find'', msg_timestamp = 6\<rparr>,
        \<lparr>msg_role = ''assistant'', msg_content = ''done'', msg_timestamp = 10\<rparr>]]"
    by (simp add: toy_world_session_def toy_config_def)
  from T have "\<forall>rm tc tcs r. completions_create toy_config ?m True = Inr rm \<and>
              tool_calls rm = Some (tc # tcs) \<and> fst ?run = Inr r \<longrightarrow>
            last (trace (snd ?run)) =
              Completion (?m @ AssistantReply rm #
                 tool_messages toy_config ''find'' (toy_world_asked ''find'') (tc # tcs)) False \<and>
            (\<exists>rm2. completions_create toy_config
                      (?m @ AssistantReply rm #
                         tool_messages toy_config ''find'' (toy_world_asked ''find'') (tc # tcs)) False =
                    Inr rm2 \<and> answer r = reply_content rm2)"
    by blast
  from this[rule_format, of ?rm "hd toy_calls" "tl toy_calls" ?r] toy_first_reply_find res
  have "last (trace (snd ?run)) =
              Completion (?m @ AssistantReply ?rm #
                 tool_messages toy_config ''find'' (toy_world_asked ''find'')
                   (hd toy_calls # tl toy_calls)) False"
    by (simp add: toy_calls_def)
  moreover have "hd toy_calls # tl toy_calls = toy_calls" by (simp add: toy_calls_def)
  ultimately have "last (trace (snd ?run)) =
              Completion (?m @ AssistantReply ?rm #
                 tool_messages toy_config ''find'' (toy_world_asked ''find'') toy_calls) False"
    by simp
  with stored show ?thesis by (simp add: toy_tool_messages[OF v])
qed

end
